theory Spec2Isabelle
  imports Main "HOL-Library.Sublist" "HOL-Library.Multiset"
begin

section \<open>Python values\<close>

text \<open>
  A Python \<open>str\<close> is a sequence of Unicode code points; \<open>in\<close>, \<open>replace\<close> and iteration
  work on code points, so a string is a list of code points here. \<open>py\<close> turns an ASCII
  literal of the source into such a list.
\<close>

type_synonym pystr = "nat list"

definition py :: "string \<Rightarrow> pystr" where
  "py s = map of_char s"

text \<open>
  Attribute values as \<open>networkx.read_graphml\<close> delivers them: GraphML declares each
  attribute \<open>string\<close>, \<open>int\<close>/\<open>long\<close> or \<open>boolean\<close> (the floating-point types are left out).
  \<open>truthy\<close> is Python's truth value, which the \<open>or\<close> chain of \<open>from_graphml\<close> tests.
\<close>

datatype pyval = PStr pystr | PInt int | PBool bool

fun truthy :: "pyval \<Rightarrow> bool" where
  "truthy (PStr s) = (s \<noteq> [])"
| "truthy (PInt i) = (i \<noteq> 0)"
| "truthy (PBool b) = b"

text \<open>An attribute dictionary (\<open>dict\<close> with string keys).\<close>

type_synonym attrs = "pystr \<rightharpoonup> pyval"

datatype error = KeyError pystr | ValueError

section \<open>The graph: \<open>networkx.MultiDiGraph\<close> as \<open>KnowledgeGraph\<close> uses it\<close>

text \<open>
  \<open>g_nodes\<close> is the node dictionary \<open>G._node\<close> in insertion order, \<open>g_edges\<close> the edges in
  the order \<open>add_edge\<close> received them. No edge is ever removed and \<open>add_edge\<close> is always
  called without a key, so every call makes a new parallel edge.
\<close>

record graph =
  g_nodes :: "(pystr \<times> attrs) list"
  g_edges :: "(pystr \<times> pystr \<times> attrs) list"

definition empty_graph :: graph where
  "empty_graph = \<lparr>g_nodes = [], g_edges = []\<rparr>"

definition has_node :: "graph \<Rightarrow> pystr \<Rightarrow> bool" where
  "has_node G n = (map_of (g_nodes G) n \<noteq> None)"

text \<open>
  \<open>G.add_node(n, **a)\<close>: a new node is appended with the attributes \<open>a\<close>; on a node
  that exists, \<open>a\<close> updates its attribute dictionary.
\<close>

definition add_node :: "graph \<Rightarrow> pystr \<Rightarrow> attrs \<Rightarrow> graph" where
  "add_node G n a =
     (if has_node G n
      then G\<lparr>g_nodes := map (\<lambda>(m, old). if m = n then (m, old ++ a) else (m, old)) (g_nodes G)\<rparr>
      else G\<lparr>g_nodes := g_nodes G @ [(n, a)]\<rparr>)"

text \<open>
  \<open>G.add_edge(u, v, **a)\<close>: an endpoint that is not yet a node is added with no
  attributes (first \<open>u\<close>, then \<open>v\<close>), then the edge is appended.
\<close>

definition add_edge :: "graph \<Rightarrow> pystr \<Rightarrow> pystr \<Rightarrow> attrs \<Rightarrow> graph" where
  "add_edge G u v a =
     (let G1 = (if has_node G u then G else add_node G u Map.empty);
          G2 = (if has_node G1 v then G1 else add_node G1 v Map.empty)
      in G2\<lparr>g_edges := g_edges G2 @ [(u, v, a)]\<rparr>)"

subsection \<open>Construction helpers and \<open>node_type\<close>\<close>

definition add_character :: "graph \<Rightarrow> pystr \<Rightarrow> graph" where
  "add_character G name = add_node G name [py ''type'' \<mapsto> PStr (py ''Character'')]"

definition add_team :: "graph \<Rightarrow> pystr \<Rightarrow> graph" where
  "add_team G name = add_node G name [py ''type'' \<mapsto> PStr (py ''Team'')]"

definition add_gene :: "graph \<Rightarrow> pystr \<Rightarrow> graph" where
  "add_gene G name = add_node G name [py ''type'' \<mapsto> PStr (py ''Gene'')]"

definition add_power :: "graph \<Rightarrow> pystr \<Rightarrow> graph" where
  "add_power G name = add_node G name [py ''type'' \<mapsto> PStr (py ''Power'')]"

definition add_relationship :: "graph \<Rightarrow> pystr \<Rightarrow> pystr \<Rightarrow> pystr \<Rightarrow> graph" where
  "add_relationship G src dst rel = add_edge G src dst [py ''relation'' \<mapsto> PStr rel]"

text \<open>
  \<open>self.G.nodes[node].get("label", "Unknown")\<close>: the subscript raises \<open>KeyError\<close> when
  \<open>node\<close> is not in the graph; \<open>get\<close> supplies the default for a missing attribute.
\<close>

definition node_type :: "graph \<Rightarrow> pystr \<Rightarrow> error + pyval" where
  "node_type G node =
     (case map_of (g_nodes G) node of
        None \<Rightarrow> Inl (KeyError node)
      | Some a \<Rightarrow> Inr (case a (py ''label'') of None \<Rightarrow> PStr (py ''Unknown'') | Some v \<Rightarrow> v))"

text \<open>
  A graph assembled with the helpers alone: the calls made on a fresh \<open>KnowledgeGraph()\<close>,
  in order.
\<close>

datatype helper_call =
    AddCharacter pystr
  | AddTeam pystr
  | AddGene pystr
  | AddPower pystr
  | AddRelationship pystr pystr pystr

fun apply_call :: "graph \<Rightarrow> helper_call \<Rightarrow> graph" where
  "apply_call G (AddCharacter name) = add_character G name"
| "apply_call G (AddTeam name) = add_team G name"
| "apply_call G (AddGene name) = add_gene G name"
| "apply_call G (AddPower name) = add_power G name"
| "apply_call G (AddRelationship src dst rel) = add_relationship G src dst rel"

definition built_by :: "helper_call list \<Rightarrow> graph" where
  "built_by calls = foldl apply_call empty_graph calls"

text \<open>The attribute dictionary of a node, as \<open>G.nodes[n]\<close> gives it.\<close>

definition node_attrs :: "graph \<Rightarrow> pystr \<Rightarrow> attrs option" where
  "node_attrs G n = map_of (g_nodes G) n"

text \<open>No node carries a \<open>label\<close> attribute.\<close>

definition no_label :: "graph \<Rightarrow> bool" where
  "no_label G = (\<forall>n a. node_attrs G n = Some a \<longrightarrow> a (py ''label'') = None)"


subsection \<open>Loading\<close>

text \<open>
  \<open>from_graphml\<close> reads the file with \<open>nx.read_graphml\<close> and makes the result directed;
  both are library calls. \<open>raw_graph\<close> is what the two copy loops then iterate over:
  \<open>raw.nodes(data=True)\<close> and \<open>raw.edges(data=True)\<close>. Node attributes are passed on as
  keyword arguments; their names are taken to differ from \<open>node_for_adding\<close>, the name of
  \<open>add_node\<close>'s own parameter, with which the call would raise \<open>TypeError\<close>.
\<close>

record raw_graph =
  raw_nodes :: "(pystr \<times> attrs) list"
  raw_edges :: "(pystr \<times> pystr \<times> attrs) list"

text \<open>
  Python's \<open>x or y\<close> is \<open>x\<close> when \<open>x\<close> is truthy and \<open>y\<close> otherwise; \<open>dict.get\<close> gives
  \<open>None\<close> (falsy) for an absent key. \<open>py_or\<close> is the \<open>or\<close> between two \<open>get\<close> results,
  \<open>py_or_const\<close> the last \<open>or\<close>, whose right operand is the string constant.
\<close>

definition py_or :: "pyval option \<Rightarrow> pyval option \<Rightarrow> pyval option" where
  "py_or x y = (case x of None \<Rightarrow> y | Some v \<Rightarrow> if truthy v then Some v else y)"

definition py_or_const :: "pyval option \<Rightarrow> pyval \<Rightarrow> pyval" where
  "py_or_const x c = (case x of None \<Rightarrow> c | Some v \<Rightarrow> if truthy v then v else c)"

definition resolve_relation :: "attrs \<Rightarrow> pyval" where
  "resolve_relation a =
     py_or_const
       (py_or (py_or (py_or (a (py ''relation'')) (a (py ''label''))) (a (py ''type'')))
          (a (py ''name'')))
       (PStr (py ''RELATED_TO''))"

definition from_graphml :: "raw_graph \<Rightarrow> graph" where
  "from_graphml raw =
     (let kg = fold (\<lambda>(node_id, a) G. add_node G node_id a) (raw_nodes raw) empty_graph
      in fold (\<lambda>(src, dst, a) G. add_edge G src dst [py ''relation'' \<mapsto> resolve_relation a])
           (raw_edges raw) kg)"

text \<open>
  The resolution as the specification words it, for comparison: the value of the first
  candidate attribute that is present, the sentinel when none is.
\<close>

fun first_present :: "attrs \<Rightarrow> pystr list \<Rightarrow> pyval \<Rightarrow> pyval" where
  "first_present a [] d = d"
| "first_present a (k # ks) d = (case a k of Some v \<Rightarrow> v | None \<Rightarrow> first_present a ks d)"

text \<open>What the \<open>or\<close> chain computes: the first candidate whose value is present and truthy.\<close>

fun first_truthy :: "attrs \<Rightarrow> pystr list \<Rightarrow> pyval \<Rightarrow> pyval" where
  "first_truthy a [] d = d"
| "first_truthy a (k # ks) d =
     (case a k of
        Some v \<Rightarrow> if truthy v then v else first_truthy a ks d
      | None \<Rightarrow> first_truthy a ks d)"

definition candidates :: "pystr list" where
  "candidates = [py ''relation'', py ''label'', py ''type'', py ''name'']"

text \<open>
  The relation of every loaded edge in the specification's wording: the first candidate
  attribute that is present decides.
\<close>

definition resolved_by_presence :: "raw_graph \<Rightarrow> pyval option list" where
  "resolved_by_presence raw =
     map (\<lambda>(src, dst, a). Some (first_present a candidates (PStr (py ''RELATED_TO'')))) (raw_edges raw)"

text \<open>Every candidate attribute that is present has a truthy value.\<close>

definition all_truthy :: "attrs \<Rightarrow> bool" where
  "all_truthy a = (\<forall>k\<in>set candidates. \<forall>v. a k = Some v \<longrightarrow> truthy v)"

text \<open>The \<open>relation\<close> attribute of every edge, in insertion order.\<close>

definition edge_relations :: "graph \<Rightarrow> pyval option list" where
  "edge_relations G = map (\<lambda>(s, t, d). d (py ''relation'')) (g_edges G)"

subsection \<open>Edge views\<close>

text \<open>
  \<open>dict.fromkeys\<close>: the distinct elements, in the order of their first occurrence.
\<close>

fun dict_fromkeys :: "'a list \<Rightarrow> 'a list" where
  "dict_fromkeys [] = []"
| "dict_fromkeys (x # xs) = x # removeAll x (dict_fromkeys xs)"

text \<open>
  networkx keeps, for each node, a dictionary from neighbour to the parallel edges with
  that neighbour. The successors of \<open>n\<close> are therefore ordered by the first edge from
  \<open>n\<close> to them, and the edges from \<open>n\<close> come grouped by successor, in insertion order
  within a group; likewise for predecessors and incoming edges.
\<close>

definition succ_keys :: "graph \<Rightarrow> pystr \<Rightarrow> pystr list" where
  "succ_keys G n = dict_fromkeys (map (\<lambda>(s, t, d). t) (filter (\<lambda>(s, t, d). s = n) (g_edges G)))"

definition pred_keys :: "graph \<Rightarrow> pystr \<Rightarrow> pystr list" where
  "pred_keys G n = dict_fromkeys (map (\<lambda>(s, t, d). s) (filter (\<lambda>(s, t, d). t = n) (g_edges G)))"

definition out_edges_node :: "graph \<Rightarrow> pystr \<Rightarrow> (pystr \<times> pystr \<times> attrs) list" where
  "out_edges_node G n =
     concat (map (\<lambda>nbr. filter (\<lambda>(s, t, d). s = n \<and> t = nbr) (g_edges G)) (succ_keys G n))"

definition in_edges_node :: "graph \<Rightarrow> pystr \<Rightarrow> (pystr \<times> pystr \<times> attrs) list" where
  "in_edges_node G n =
     concat (map (\<lambda>nbr. filter (\<lambda>(s, t, d). t = n \<and> s = nbr) (g_edges G)) (pred_keys G n))"

text \<open>
  \<open>G.in_edges(x, data=True)\<close> and \<open>G.out_edges(x, data=True)\<close> pass \<open>x\<close> through
  \<open>nbunch_iter\<close>: a node of the graph stands for itself; anything else is iterated as a
  container of nodes, and a string is a container of its one-character strings, of which
  those that are nodes are kept. The view then drops repetitions with \<open>dict.fromkeys\<close>.
\<close>

definition nbunch_iter :: "graph \<Rightarrow> pystr \<Rightarrow> pystr list" where
  "nbunch_iter G x = (if has_node G x then [x] else filter (has_node G) (map (\<lambda>c. [c]) x))"

definition in_edges :: "graph \<Rightarrow> pystr \<Rightarrow> (pystr \<times> pystr \<times> attrs) list" where
  "in_edges G x = concat (map (in_edges_node G) (dict_fromkeys (nbunch_iter G x)))"

definition out_edges :: "graph \<Rightarrow> pystr \<Rightarrow> (pystr \<times> pystr \<times> attrs) list" where
  "out_edges G x = concat (map (out_edges_node G) (dict_fromkeys (nbunch_iter G x)))"

section \<open>GraphExecutor\<close>

text \<open>
  The plan is a \<open>dict\<close>; a field is \<open>None\<close> when the key is absent. \<open>execute\<close> subscripts
  \<open>start_entity\<close> and \<open>relation_chain\<close> (\<open>KeyError\<close> when absent) and reads \<open>start_type\<close>
  with \<open>get\<close> and the default \<open>""\<close>.
\<close>

record plan =
  start_entity :: "pystr option"
  start_type :: "pyval option"
  relation_chain :: "pystr list option"
  target_type :: "pystr option"

text \<open>\<open>data.get("relation") == rel\<close>: only a string value equals the string \<open>rel\<close>.\<close>

definition relation_is :: "attrs \<Rightarrow> pystr \<Rightarrow> bool" where
  "relation_is data rel = (data (py ''relation'') = Some (PStr rel))"

text \<open>The two innermost loops, appending to \<open>nxt\<close>.\<close>

fun scan_in :: "(pystr \<times> pystr \<times> attrs) list \<Rightarrow> pystr \<Rightarrow> pystr list \<Rightarrow> pystr list" where
  "scan_in [] rel nxt = nxt"
| "scan_in ((src, tgt, data) # es) rel nxt =
     scan_in es rel (if relation_is data rel then nxt @ [src] else nxt)"

fun scan_out :: "(pystr \<times> pystr \<times> attrs) list \<Rightarrow> pystr \<Rightarrow> pystr list \<Rightarrow> pystr list" where
  "scan_out [] rel nxt = nxt"
| "scan_out ((src, tgt, data) # es) rel nxt =
     scan_out es rel (if relation_is data rel then nxt @ [tgt] else nxt)"

text \<open>\<open>for n in nodes\<close>, with the test \<open>entity_type in ["Power", "Team"]\<close> made for each \<open>n\<close>.\<close>

fun visit :: "graph \<Rightarrow> pyval \<Rightarrow> pystr \<Rightarrow> pystr list \<Rightarrow> pystr list \<Rightarrow> pystr list" where
  "visit G entity_type rel [] nxt = nxt"
| "visit G entity_type rel (n # ns) nxt =
     visit G entity_type rel ns
       (if entity_type \<in> set [PStr (py ''Power''), PStr (py ''Team'')]
        then scan_in (in_edges G n) rel nxt
        else scan_out (out_edges G n) rel nxt)"

text \<open>\<open>for rel in plan["relation_chain"]\<close>: each hop replaces \<open>nodes\<close> by \<open>nxt\<close>.\<close>

fun follow :: "graph \<Rightarrow> pyval \<Rightarrow> pystr list \<Rightarrow> pystr list \<Rightarrow> pystr list" where
  "follow G entity_type [] nodes = nodes"
| "follow G entity_type (rel # rels) nodes =
     follow G entity_type rels (visit G entity_type rel nodes [])"

definition execute :: "graph \<Rightarrow> plan \<Rightarrow> error + pystr list" where
  "execute G p =
     (case start_entity p of
        None \<Rightarrow> Inl (KeyError (py ''start_entity''))
      | Some e \<Rightarrow>
          (let entity_type = (case start_type p of None \<Rightarrow> PStr [] | Some t \<Rightarrow> t)
           in case relation_chain p of
                None \<Rightarrow> Inl (KeyError (py ''relation_chain''))
              | Some chain \<Rightarrow> Inr (follow G entity_type chain [e])))"

text \<open>
  The executor as the specification words it: the direction is fixed once, from the
  start type; each hop maps every entity of the working set to the sources of its
  incoming edges of the hop's relation (reverse) or to the targets of its outgoing ones.
\<close>

definition reverse_lookup :: "pyval \<Rightarrow> bool" where
  "reverse_lookup t = (t = PStr (py ''Power'') \<or> t = PStr (py ''Team''))"

definition incoming_sources :: "graph \<Rightarrow> pystr \<Rightarrow> pystr \<Rightarrow> pystr list" where
  "incoming_sources G rel n =
     map (\<lambda>(src, tgt, data). src) (filter (\<lambda>(src, tgt, data). relation_is data rel) (in_edges G n))"

definition outgoing_targets :: "graph \<Rightarrow> pystr \<Rightarrow> pystr \<Rightarrow> pystr list" where
  "outgoing_targets G rel n =
     map (\<lambda>(src, tgt, data). tgt) (filter (\<lambda>(src, tgt, data). relation_is data rel) (out_edges G n))"

text \<open>
  The same neighbours read off the plain edge list: the sources of the edges into \<open>n\<close>,
  and the targets of the edges out of \<open>n\<close>, that carry the relation \<open>rel\<close>.
\<close>

definition sources_into :: "graph \<Rightarrow> pystr \<Rightarrow> pystr \<Rightarrow> pystr list" where
  "sources_into G rel n =
     map (\<lambda>(s, t, d). s) (filter (\<lambda>(s, t, d). t = n \<and> relation_is d rel) (g_edges G))"

definition targets_from :: "graph \<Rightarrow> pystr \<Rightarrow> pystr \<Rightarrow> pystr list" where
  "targets_from G rel n =
     map (\<lambda>(s, t, d). t) (filter (\<lambda>(s, t, d). s = n \<and> relation_is d rel) (g_edges G))"

definition expand :: "graph \<Rightarrow> bool \<Rightarrow> pystr \<Rightarrow> pystr list \<Rightarrow> pystr list" where
  "expand G reverse rel ns =
     concat (map (if reverse then incoming_sources G rel else outgoing_targets G rel) ns)"

definition traverse :: "graph \<Rightarrow> bool \<Rightarrow> pystr list \<Rightarrow> pystr list \<Rightarrow> pystr list" where
  "traverse G reverse chain ns = foldl (\<lambda>ws rel. expand G reverse rel ws) ns chain"

text \<open>
  A graph as \<open>add_node\<close> and \<open>add_edge\<close> build it: node names are distinct and both ends
  of every edge are nodes. A plan is well formed when its start entity is a node and its
  chain is not empty.
\<close>

definition graph_ok :: "graph \<Rightarrow> bool" where
  "graph_ok G =
     (distinct (map fst (g_nodes G)) \<and>
      list_all (\<lambda>(s, t, d). has_node G s \<and> has_node G t) (g_edges G))"

definition well_formed :: "graph \<Rightarrow> plan \<Rightarrow> bool" where
  "well_formed G p =
     (case (start_entity p, relation_chain p) of
        (Some e, Some chain) \<Rightarrow> has_node G e \<and> chain \<noteq> []
      | _ \<Rightarrow> False)"

section \<open>QueryInterpreter\<close>

text \<open>\<open>w in s\<close> on strings: \<open>w\<close> occurs in \<open>s\<close> as a contiguous run.\<close>

fun str_in :: "pystr \<Rightarrow> pystr \<Rightarrow> bool" where
  "str_in w [] = (w = [])"
| "str_in w (c # s) = (prefix w (c # s) \<or> str_in w s)"

text \<open>\<open>s.replace(a, b)\<close> for one-character \<open>a\<close> and \<open>b\<close>.\<close>

definition replace_cp :: "nat \<Rightarrow> nat \<Rightarrow> pystr \<Rightarrow> pystr" where
  "replace_cp a b s = map (\<lambda>c. if c = a then b else c) s"

text \<open>
  The two dashes of \<open>_extract_entity\<close>: the ASCII hyphen-minus U+002D and the
  non-breaking hyphen U+2011 that the source writes literally.
\<close>

definition hyphen :: nat where
  "hyphen = 45"

definition nb_hyphen :: nat where
  "nb_hyphen = 8209"

text \<open>
  \<open>str.lower\<close> belongs to the Python runtime and follows the Unicode case tables, so the
  interpreter takes it as the parameter \<open>lower\<close>. \<open>ascii_lower\<close> is what it does on text
  whose code points are ASCII or one of the two dashes.
\<close>

definition ascii_lower :: "pystr \<Rightarrow> pystr" where
  "ascii_lower s = map (\<lambda>c. if 65 \<le> c \<and> c \<le> 90 then c + 32 else c) s"

text \<open>The condition of the fallback loop, on the lowered node name and question.\<close>

definition node_matches :: "pystr \<Rightarrow> pystr \<Rightarrow> bool" where
  "node_matches node_lower q_low =
     (str_in node_lower q_low \<or>
      str_in (replace_cp nb_hyphen hyphen node_lower) q_low \<or>
      str_in (replace_cp hyphen nb_hyphen node_lower) q_low)"

text \<open>The fallback pass of \<open>_extract_entity\<close>: the first node, in the graph's order, that matches.\<close>

definition extract_fallback :: "(pystr \<Rightarrow> pystr) \<Rightarrow> graph \<Rightarrow> pystr \<Rightarrow> pystr option" where
  "extract_fallback lower G query =
     (let q_low = lower query
      in find (\<lambda>node_name. node_matches (lower node_name) q_low) (map fst (g_nodes G)))"

text \<open>
  \<open>_extract_entity\<close>. \<open>nlp\<close> is \<open>self._nlp\<close>: \<open>None\<close> when spaCy is not installed, otherwise
  the pipeline, taken as the function from the question to the texts of \<open>doc.ents\<close>.
\<close>

definition extract_entity ::
  "(pystr \<Rightarrow> pystr list) option \<Rightarrow> (pystr \<Rightarrow> pystr) \<Rightarrow> graph \<Rightarrow> pystr \<Rightarrow> pystr option" where
  "extract_entity nlp lower G query =
     (case (case nlp of None \<Rightarrow> None | Some ents \<Rightarrow> find (has_node G) (ents query)) of
        Some found \<Rightarrow> Some found
      | None \<Rightarrow> extract_fallback lower G query)"

text \<open>\<open>self.intent_templates\<close>, in the dictionary's order.\<close>

definition intent_templates :: "(pystr \<times> pystr \<times> pystr list) list" where
  "intent_templates =
     [(py ''direct_power'',
         (py ''Retrieve powers a character directly possesses'', [py ''POSSESSES_POWER''])),
      (py ''mutation_power'',
         (py ''Retrieve powers a character has via mutations'', [py ''HAS_MUTATION'', py ''CONFERS''])),
      (py ''team'',
         (py ''Retrieve teams a character belongs to'', [py ''MEMBER_OF''])),
      (py ''gene_power'',
         (py ''Retrieve powers a gene confers'', [py ''CONFERS''])),
      (py ''character_gene'',
         (py ''Retrieve genes a character has'', [py ''HAS_MUTATION'']))]"

text \<open>
  \<open>max(xs, key=f)\<close>: the first element whose key no later element exceeds;
  \<open>ValueError\<close> (here \<open>None\<close>) on an empty sequence.
\<close>

fun py_max :: "('a \<Rightarrow> 's::linorder) \<Rightarrow> 'a list \<Rightarrow> 'a option" where
  "py_max f [] = None"
| "py_max f (x # xs) = Some (foldl (\<lambda>best y. if f best < f y then y else best) x xs)"

text \<open>
  The embedding-based branch. The sentence-transformer model is outside the repository:
  \<open>sim query k\<close> stands for the cosine similarity of the question's embedding and the
  embedding of template \<open>k\<close>.
\<close>

definition semantic_intent :: "(pystr \<Rightarrow> pystr \<Rightarrow> 's::linorder) \<Rightarrow> pystr \<Rightarrow> error + pystr \<times> pystr list" where
  "semantic_intent sim query =
     (case py_max (sim query) (map fst intent_templates) of
        None \<Rightarrow> Inl ValueError
      | Some intent \<Rightarrow>
          (case map_of intent_templates intent of
             None \<Rightarrow> Inl (KeyError intent)
           | Some (descr, chain) \<Rightarrow> Inr (intent, chain)))"

text \<open>Step 2 of \<open>interpret\<close>: the intent and the relation chain, from the entity type.\<close>

definition choose_intent ::
  "(pystr \<Rightarrow> pystr) \<Rightarrow> (pystr \<Rightarrow> pystr \<Rightarrow> 's::linorder) \<Rightarrow> pyval \<Rightarrow> pystr \<Rightarrow> error + pystr \<times> pystr list" where
  "choose_intent lower sim entity_type query =
     (if entity_type = PStr (py ''Gene'') then Inr (py ''gene_power'', [py ''CONFERS''])
      else if entity_type = PStr (py ''Power'') then Inr (py ''power_character'', [py ''POSSESSES_POWER''])
      else if entity_type = PStr (py ''Team'') then Inr (py ''team_character'', [py ''MEMBER_OF''])
      else if entity_type = PStr (py ''Character'') then
        (let q_low = lower query
         in if list_ex (\<lambda>word. str_in word q_low) [py ''gene'', py ''mutation'', py ''mutant'']
            then Inr (py ''character_gene'', [py ''HAS_MUTATION''])
            else semantic_intent sim query)
      else semantic_intent sim query)"

definition target_of :: "pystr \<Rightarrow> pystr" where
  "target_of intent =
     (if suffix (py ''power'') intent then py ''Power''
      else if intent = py ''team'' then py ''Team''
      else if intent = py ''character_gene'' then py ''Gene''
      else if intent \<in> set [py ''power_character'', py ''team_character''] then py ''Character''
      else py ''Unknown'')"

text \<open>
  \<open>interpret\<close>, with the value of its local variable \<open>intent\<close> kept beside the plan;
  \<open>interpret_query\<close> is what the method returns, the plan alone.
\<close>

definition interpret_trace ::
  "(pystr \<Rightarrow> pystr list) option \<Rightarrow> (pystr \<Rightarrow> pystr) \<Rightarrow> (pystr \<Rightarrow> pystr \<Rightarrow> 's::linorder) \<Rightarrow> graph \<Rightarrow> pystr
     \<Rightarrow> error + pystr \<times> plan" where
  "interpret_trace nlp lower sim G query =
     (case extract_entity nlp lower G query of
        None \<Rightarrow> Inl ValueError
      | Some e \<Rightarrow>
          (case node_type G e of
             Inl err \<Rightarrow> Inl err
           | Inr entity_type \<Rightarrow>
               (case choose_intent lower sim entity_type query of
                  Inl err \<Rightarrow> Inl err
                | Inr (intent, chain) \<Rightarrow>
                    Inr (intent,
                         \<lparr>start_entity = Some e, start_type = Some entity_type,
                          relation_chain = Some chain, target_type = Some (target_of intent)\<rparr>))))"

definition interpret_query ::
  "(pystr \<Rightarrow> pystr list) option \<Rightarrow> (pystr \<Rightarrow> pystr) \<Rightarrow> (pystr \<Rightarrow> pystr \<Rightarrow> 's::linorder) \<Rightarrow> graph \<Rightarrow> pystr
     \<Rightarrow> error + plan" where
  "interpret_query nlp lower sim G query =
     (case interpret_trace nlp lower sim G query of
        Inl err \<Rightarrow> Inl err
      | Inr (intent, p) \<Rightarrow> Inr p)"

section \<open>Example graphs\<close>

text \<open>One character possessing one power.\<close>

definition gXY :: graph where
  "gXY = built_by [AddCharacter (py ''X''), AddPower (py ''Y''),
                   AddRelationship (py ''X'') (py ''Y'') (py ''POSSESSES_POWER'')]"

text \<open>A character with one mutation, a gene, that confers one power.\<close>

definition gWGP :: graph where
  "gWGP = built_by [AddCharacter (py ''W''), AddGene (py ''G''), AddPower (py ''P''),
                    AddRelationship (py ''W'') (py ''G'') (py ''HAS_MUTATION''),
                    AddRelationship (py ''G'') (py ''P'') (py ''CONFERS'')]"

text \<open>
  Two loaded files with one edge each: the relation stored under \<open>type\<close> as a string, and
  stored under \<open>type\<close> as the integer \<open>0\<close> (a GraphML attribute of type \<open>int\<close>).
\<close>

definition raw_typed :: raw_graph where
  "raw_typed =
     \<lparr>raw_nodes = [(py ''Storm'', [py ''label'' \<mapsto> PStr (py ''Character'')]),
                   (py ''X-Men'', [py ''label'' \<mapsto> PStr (py ''Team'')])],
      raw_edges = [(py ''Storm'', py ''X-Men'', [py ''type'' \<mapsto> PStr (py ''MEMBER_OF'')])]\<rparr>"

definition raw_zero :: raw_graph where
  "raw_zero =
     \<lparr>raw_nodes = [(py ''Storm'', [py ''label'' \<mapsto> PStr (py ''Character'')]),
                   (py ''X-Men'', [py ''label'' \<mapsto> PStr (py ''Team'')])],
      raw_edges = [(py ''Storm'', py ''X-Men'', [py ''type'' \<mapsto> PInt 0])]\<rparr>"

text \<open>
  A part of the data set of the repository, as \<open>from_graphml\<close> loads it: nodes carry \<open>label\<close>
  and \<open>name\<close>, edges carry the relation under \<open>type\<close>, and the names \<open>Spider-Man\<close> and
  \<open>X-Men\<close> are written with the non-breaking hyphen.
\<close>

definition spider_man :: pystr where
  "spider_man = py ''Spider'' @ [nb_hyphen] @ py ''Man''"

definition x_men :: pystr where
  "x_men = py ''X'' @ [nb_hyphen] @ py ''Men''"

definition marvel_raw :: raw_graph where
  "marvel_raw =
     \<lparr>raw_nodes =
        [(py ''Wolverine'', [py ''label'' \<mapsto> PStr (py ''Character''), py ''name'' \<mapsto> PStr (py ''Wolverine'')]),
         (spider_man, [py ''label'' \<mapsto> PStr (py ''Character''), py ''name'' \<mapsto> PStr spider_man]),
         (x_men, [py ''label'' \<mapsto> PStr (py ''Team''), py ''name'' \<mapsto> PStr x_men]),
         (py ''Regenerative Mutation'',
            [py ''label'' \<mapsto> PStr (py ''Gene''), py ''name'' \<mapsto> PStr (py ''Regenerative Mutation'')]),
         (py ''Accelerated Healing'',
            [py ''label'' \<mapsto> PStr (py ''Power''), py ''name'' \<mapsto> PStr (py ''Accelerated Healing'')])],
      raw_edges =
        [(py ''Wolverine'', x_men, [py ''type'' \<mapsto> PStr (py ''MEMBER_OF'')]),
         (py ''Wolverine'', py ''Regenerative Mutation'', [py ''type'' \<mapsto> PStr (py ''HAS_MUTATION'')]),
         (py ''Regenerative Mutation'', py ''Accelerated Healing'', [py ''type'' \<mapsto> PStr (py ''CONFERS'')]),
         (py ''Wolverine'', py ''Accelerated Healing'', [py ''type'' \<mapsto> PStr (py ''POSSESSES_POWER'')])]\<rparr>"

definition marvel :: graph where
  "marvel = from_graphml marvel_raw"

text \<open>A similarity that scores every template alike, for the examples.\<close>

definition flat_sim :: "pystr \<Rightarrow> pystr \<Rightarrow> nat" where
  "flat_sim query k = 0"

section \<open>Basic facts\<close>

lemma py_eq_iff [simp]: "py s = py t \<longleftrightarrow> s = t"
  by (simp add: py_def inj_map_eq_map [OF inj_of_char])

lemma py_Nil_iff [simp]: "py s = [] \<longleftrightarrow> s = []"
  by (simp add: py_def)

subsection \<open>Nodes and their attributes\<close>

lemma has_node_iff: "has_node G n \<longleftrightarrow> n \<in> set (map fst (g_nodes G))"
  by (simp add: has_node_def map_of_eq_None_iff)

lemma has_node_attrs: "has_node G n \<longleftrightarrow> node_attrs G n \<noteq> None"
  by (simp add: has_node_def node_attrs_def)

lemma node_attrs_empty [simp]: "node_attrs empty_graph n = None"
  by (simp add: node_attrs_def empty_graph_def)

lemma node_attrs_edges_update [simp]: "node_attrs (G\<lparr>g_edges := es\<rparr>) k = node_attrs G k"
  by (simp add: node_attrs_def)

lemma map_of_update_entries:
  "map_of (map (\<lambda>(m, old). if m = n then (m, old ++ a) else (m, old)) xs) k =
     (if k = n then map_option (\<lambda>old. old ++ a) (map_of xs k) else map_of xs k)"
  by (induction xs) auto

lemma node_attrs_add_node:
  "node_attrs (add_node G n a) k =
     (if k = n then Some (case node_attrs G n of None \<Rightarrow> a | Some old \<Rightarrow> old ++ a)
      else node_attrs G k)"
  by (auto simp: node_attrs_def add_node_def has_node_def map_of_update_entries map_add_def
        split: option.splits)

lemma g_edges_add_node [simp]: "g_edges (add_node G n a) = g_edges G"
  by (simp add: add_node_def)

lemma has_node_add_node: "has_node (add_node G n a) k \<longleftrightarrow> k = n \<or> has_node G k"
  using node_attrs_add_node [of G n a k] by (auto simp: has_node_def node_attrs_def)

lemma node_attrs_add_edge:
  "node_attrs (add_edge G u v a) k =
     (if has_node G k then node_attrs G k else if k = u \<or> k = v then Some Map.empty else None)"
  by (auto simp: add_edge_def Let_def node_attrs_add_node has_node_add_node has_node_attrs
        split: option.splits)

lemma node_type_attrs:
  "node_type G n =
     (case node_attrs G n of
        None \<Rightarrow> Inl (KeyError n)
      | Some a \<Rightarrow> Inr (case a (py ''label'') of None \<Rightarrow> PStr (py ''Unknown'') | Some v \<Rightarrow> v))"
  by (simp add: node_type_def node_attrs_def)

lemma no_label_apply_call: "no_label G \<Longrightarrow> no_label (apply_call G c)"
  by (cases c)
     (auto simp: no_label_def add_character_def add_team_def add_gene_def add_power_def
        add_relationship_def node_attrs_add_node node_attrs_add_edge map_add_def
        split: if_splits option.splits)

lemma no_label_foldl: "no_label G \<Longrightarrow> no_label (foldl apply_call G cs)"
  by (induction cs arbitrary: G) (auto simp: no_label_apply_call)

lemma no_label_built_by: "no_label (built_by cs)"
  unfolding built_by_def by (rule no_label_foldl) (simp add: no_label_def)

section \<open>Graph store\<close>

subsection \<open>\<open>node_type\<close> on names inside and outside the graph\<close>

text \<open>
  Claim C2, as far as the code supports it: for every name that is a node of the graph,
  \<open>node_type\<close> returns the node's \<open>label\<close> attribute, or \<open>"Unknown"\<close> when the node has
  none, and raises nothing.
\<close>

theorem node_type_on_graph_nodes:
  assumes "has_node G n"
  shows "\<exists>a. node_attrs G n = Some a \<and>
           node_type G n = Inr (case a (py ''label'') of None \<Rightarrow> PStr (py ''Unknown'') | Some v \<Rightarrow> v)"
  using assms by (auto simp: node_type_attrs has_node_attrs)

theorem node_type_on_graph_nodes_witness:
  "has_node (add_character empty_graph (py ''Storm'')) (py ''Storm'') \<and>
   node_type (add_character empty_graph (py ''Storm'')) (py ''Storm'') = Inr (PStr (py ''Unknown''))"
proof -
  have h: "has_node (add_character empty_graph (py ''Storm'')) (py ''Storm'')"
    by (simp add: add_character_def has_node_add_node)
  have a: "node_attrs (add_character empty_graph (py ''Storm'')) (py ''Storm'')
             = Some [py ''type'' \<mapsto> PStr (py ''Character'')]"
    by (simp add: add_character_def node_attrs_add_node)
  from node_type_on_graph_nodes [OF h] a h show ?thesis by auto
qed

text \<open>
  The part of C2 that fails: asked about a name that is not a node, \<open>node_type\<close> raises
  \<open>KeyError\<close>; the default of \<open>get\<close> covers a missing attribute only.
\<close>

theorem node_type_raises_counterexample:
  "node_type (add_character empty_graph (py ''Storm'')) (py ''Hulk'') = Inl (KeyError (py ''Hulk''))"
  by (simp add: node_type_attrs add_character_def node_attrs_add_node)

subsection \<open>The helpers write \<open>type\<close>, \<open>node_type\<close> reads \<open>label\<close>\<close>

text \<open>
  Claim C10: each of \<open>add_character\<close>, \<open>add_team\<close>, \<open>add_gene\<close> and \<open>add_power\<close> stores the
  kind of the node under the attribute \<open>type\<close>; \<open>node_type\<close> reads \<open>label\<close>. So in a graph
  assembled with the helpers alone, \<open>node_type\<close> answers \<open>"Unknown"\<close> for every node.
\<close>

theorem helpers_write_type_node_type_reads_label:
  "(\<exists>a. node_attrs (add_character G n) n = Some a \<and> a (py ''type'') = Some (PStr (py ''Character''))) \<and>
   (\<exists>a. node_attrs (add_team G n) n = Some a \<and> a (py ''type'') = Some (PStr (py ''Team''))) \<and>
   (\<exists>a. node_attrs (add_gene G n) n = Some a \<and> a (py ''type'') = Some (PStr (py ''Gene''))) \<and>
   (\<exists>a. node_attrs (add_power G n) n = Some a \<and> a (py ''type'') = Some (PStr (py ''Power''))) \<and>
   (has_node (built_by calls) m \<longrightarrow> node_type (built_by calls) m = Inr (PStr (py ''Unknown'')))"
proof -
  have "node_type (built_by calls) m = Inr (PStr (py ''Unknown''))" if "has_node (built_by calls) m"
  proof -
    from that obtain a where a: "node_attrs (built_by calls) m = Some a"
      by (auto simp: has_node_attrs)
    with no_label_built_by [of calls] have "a (py ''label'') = None"
      by (simp add: no_label_def)
    with a show ?thesis by (simp add: node_type_attrs)
  qed
  then show ?thesis
    by (simp add: add_character_def add_team_def add_gene_def add_power_def node_attrs_add_node
          split: option.splits)
qed

theorem helpers_write_type_node_type_reads_label_witness:
  "has_node (built_by [AddPower (py ''Flight'')]) (py ''Flight'') \<and>
   node_attrs (built_by [AddPower (py ''Flight'')]) (py ''Flight'')
     = Some [py ''type'' \<mapsto> PStr (py ''Power'')] \<and>
   node_type (built_by [AddPower (py ''Flight'')]) (py ''Flight'') = Inr (PStr (py ''Unknown''))"
proof -
  have h: "has_node (built_by [AddPower (py ''Flight'')]) (py ''Flight'')"
    by (simp add: built_by_def add_power_def has_node_add_node)
  have a: "node_attrs (built_by [AddPower (py ''Flight'')]) (py ''Flight'')
             = Some [py ''type'' \<mapsto> PStr (py ''Power'')]"
    by (simp add: built_by_def add_power_def node_attrs_add_node)
  from helpers_write_type_node_type_reads_label
         [of empty_graph "py ''Flight''" "[AddPower (py ''Flight'')]" "py ''Flight''"] h a
  show ?thesis by simp
qed

subsection \<open>The graph as built by \<open>add_node\<close> and \<open>add_edge\<close>\<close>

lemma scan_in_eq:
  "scan_in es rel nxt = nxt @ map (\<lambda>(s, t, d). s) (filter (\<lambda>(s, t, d). relation_is d rel) es)"
  by (induction es rel nxt rule: scan_in.induct) auto

lemma scan_out_eq:
  "scan_out es rel nxt = nxt @ map (\<lambda>(s, t, d). t) (filter (\<lambda>(s, t, d). relation_is d rel) es)"
  by (induction es rel nxt rule: scan_out.induct) auto

lemma visit_eq: "visit G ty rel ns nxt = nxt @ expand G (reverse_lookup ty) rel ns"
  by (induction ns arbitrary: nxt)
     (auto simp: expand_def reverse_lookup_def scan_in_eq scan_out_eq incoming_sources_def
        outgoing_targets_def)

lemma follow_eq: "follow G ty chain ns = traverse G (reverse_lookup ty) chain ns"
  by (induction chain arbitrary: ns) (auto simp: traverse_def visit_eq)

lemma traverse_append:
  "traverse G r (c1 @ c2) ns = traverse G r c2 (traverse G r c1 ns)"
  by (simp add: traverse_def)

lemma traverse_Nil_nodes [simp]: "traverse G r chain [] = []"
  by (induction chain) (auto simp: traverse_def expand_def)

lemma dict_fromkeys_set [simp]: "set (dict_fromkeys xs) = set xs"
  by (induction xs) auto

lemma dict_fromkeys_distinct [simp]: "distinct (dict_fromkeys xs)"
  by (induction xs) (auto simp: distinct_removeAll)

lemma mset_grouped:
  "distinct ks \<Longrightarrow>
   mset (concat (map (\<lambda>k. filter (\<lambda>x. P x \<and> f x = k) xs) ks))
     = mset (filter (\<lambda>x. P x \<and> f x \<in> set ks) xs)"
proof (induction ks)
  case Nil
  then show ?case by simp
next
  case (Cons k ks)
  have "mset (filter (\<lambda>x. P x \<and> f x = k) xs) + mset (filter (\<lambda>x. P x \<and> f x \<in> set ks) xs)
          = mset (filter (\<lambda>x. P x \<and> f x \<in> set (k # ks)) xs)"
    using Cons.prems by (induction xs) auto
  with Cons show ?case by simp
qed

lemma pred_keys_mem: "(s, n, d) \<in> set (g_edges G) \<Longrightarrow> s \<in> set (pred_keys G n)"
  by (force simp: pred_keys_def)

lemma succ_keys_mem: "(n, t, d) \<in> set (g_edges G) \<Longrightarrow> t \<in> set (succ_keys G n)"
  by (force simp: succ_keys_def)

lemma in_edges_node_mset:
  "mset (in_edges_node G n) = mset (filter (\<lambda>(s, t, d). t = n) (g_edges G))"
proof -
  have "mset (in_edges_node G n)
          = mset (filter (\<lambda>e. (case e of (s, t, d) \<Rightarrow> t = n) \<and> fst e \<in> set (pred_keys G n)) (g_edges G))"
    unfolding in_edges_node_def
    using mset_grouped [of "pred_keys G n" "\<lambda>(s, t, d). t = n" fst "g_edges G"]
    by (simp add: pred_keys_def case_prod_unfold)
  also have "\<dots> = mset (filter (\<lambda>(s, t, d). t = n) (g_edges G))"
    by (rule arg_cong [where f = mset], rule filter_cong) (auto intro: pred_keys_mem)
  finally show ?thesis .
qed

lemma out_edges_node_mset:
  "mset (out_edges_node G n) = mset (filter (\<lambda>(s, t, d). s = n) (g_edges G))"
proof -
  have "mset (out_edges_node G n)
          = mset (filter (\<lambda>e. (case e of (s, t, d) \<Rightarrow> s = n) \<and> fst (snd e) \<in> set (succ_keys G n)) (g_edges G))"
    unfolding out_edges_node_def
    using mset_grouped [of "succ_keys G n" "\<lambda>(s, t, d). s = n" "\<lambda>e. fst (snd e)" "g_edges G"]
    by (simp add: succ_keys_def case_prod_unfold)
  also have "\<dots> = mset (filter (\<lambda>(s, t, d). s = n) (g_edges G))"
    by (rule arg_cong [where f = mset], rule filter_cong) (auto intro: succ_keys_mem)
  finally show ?thesis .
qed

lemma in_edges_has_node: "has_node G n \<Longrightarrow> in_edges G n = in_edges_node G n"
  by (simp add: in_edges_def nbunch_iter_def)

lemma out_edges_has_node: "has_node G n \<Longrightarrow> out_edges G n = out_edges_node G n"
  by (simp add: out_edges_def nbunch_iter_def)

lemma incoming_sources_mset:
  assumes "has_node G n"
  shows "mset (incoming_sources G rel n) = mset (sources_into G rel n)"
proof -
  have "mset (incoming_sources G rel n)
          = image_mset (\<lambda>(s, t, d). s) (filter_mset (\<lambda>(s, t, d). relation_is d rel) (mset (in_edges_node G n)))"
    by (simp add: incoming_sources_def in_edges_has_node [OF assms])
  also have "\<dots> = mset (sources_into G rel n)"
    by (simp add: in_edges_node_mset sources_into_def case_prod_unfold filter_filter_mset)
  finally show ?thesis .
qed

lemma outgoing_targets_mset:
  assumes "has_node G n"
  shows "mset (outgoing_targets G rel n) = mset (targets_from G rel n)"
proof -
  have "mset (outgoing_targets G rel n)
          = image_mset (\<lambda>(s, t, d). t) (filter_mset (\<lambda>(s, t, d). relation_is d rel) (mset (out_edges_node G n)))"
    by (simp add: outgoing_targets_def out_edges_has_node [OF assms])
  also have "\<dots> = mset (targets_from G rel n)"
    by (simp add: out_edges_node_mset targets_from_def case_prod_unfold filter_filter_mset)
  finally show ?thesis .
qed

lemma names_add_node:
  "map fst (g_nodes (add_node G n a)) =
     (if has_node G n then map fst (g_nodes G) else map fst (g_nodes G) @ [n])"
  by (auto simp: add_node_def case_prod_unfold intro: map_cong)

lemma graph_ok_empty: "graph_ok empty_graph"
  by (simp add: graph_ok_def empty_graph_def)

lemma graph_ok_add_node: "graph_ok G \<Longrightarrow> graph_ok (add_node G n a)"
  by (auto simp: graph_ok_def names_add_node has_node_add_node list_all_iff)
     (force simp: has_node_iff)

lemma g_nodes_edges_update [simp]: "g_nodes (G\<lparr>g_edges := es\<rparr>) = g_nodes G"
  by simp

lemma has_node_edges_update [simp]: "has_node (G\<lparr>g_edges := es\<rparr>) k = has_node G k"
  by (simp add: has_node_def)

lemma graph_ok_edges_append:
  "graph_ok G \<Longrightarrow> has_node G u \<Longrightarrow> has_node G v \<Longrightarrow> graph_ok (G\<lparr>g_edges := g_edges G @ [(u, v, a)]\<rparr>)"
  by (auto simp: graph_ok_def list_all_iff)

lemma g_edges_add_edge: "g_edges (add_edge G u v a) = g_edges G @ [(u, v, a)]"
  by (simp add: add_edge_def Let_def)

lemma graph_ok_add_edge: "graph_ok G \<Longrightarrow> graph_ok (add_edge G u v a)"
  unfolding add_edge_def Let_def
  by (auto intro!: graph_ok_edges_append [where G = "add_node (add_node G u Map.empty) v Map.empty", simplified]
                   graph_ok_edges_append [where G = "add_node G u Map.empty", simplified]
                   graph_ok_edges_append [where G = "add_node G v Map.empty", simplified]
                   graph_ok_edges_append graph_ok_add_node
           simp: has_node_add_node)

lemma graph_ok_apply_call: "graph_ok G \<Longrightarrow> graph_ok (apply_call G c)"
  by (cases c)
     (simp_all add: add_character_def add_team_def add_gene_def add_power_def add_relationship_def
        graph_ok_add_node graph_ok_add_edge)

lemma graph_ok_foldl: "graph_ok G \<Longrightarrow> graph_ok (foldl apply_call G cs)"
  by (induction cs arbitrary: G) (auto simp: graph_ok_apply_call)

lemma graph_ok_built_by: "graph_ok (built_by cs)"
  by (simp add: built_by_def graph_ok_foldl graph_ok_empty)

lemma graph_ok_fold_nodes:
  "graph_ok G \<Longrightarrow> graph_ok (fold (\<lambda>(node_id, a) G. add_node G node_id a) ns G)"
  by (induction ns arbitrary: G) (auto simp: graph_ok_add_node)

lemma graph_ok_fold_edges:
  "graph_ok G \<Longrightarrow> graph_ok (fold (\<lambda>(src, dst, a) G. add_edge G src dst (f a)) es G)"
  by (induction es arbitrary: G) (auto simp: graph_ok_add_edge)

lemma graph_ok_from_graphml: "graph_ok (from_graphml raw)"
  by (simp add: from_graphml_def Let_def graph_ok_fold_edges graph_ok_fold_nodes graph_ok_empty)

lemma in_edges_node_subset: "set (in_edges_node G n) \<subseteq> set (g_edges G)"
  by (auto simp: in_edges_node_def)

lemma out_edges_node_subset: "set (out_edges_node G n) \<subseteq> set (g_edges G)"
  by (auto simp: out_edges_node_def)

lemma in_edges_subset: "set (in_edges G x) \<subseteq> set (g_edges G)"
  using in_edges_node_subset by (fastforce simp: in_edges_def)

lemma out_edges_subset: "set (out_edges G x) \<subseteq> set (g_edges G)"
  using out_edges_node_subset by (fastforce simp: out_edges_def)

lemma graph_ok_edge_ends:
  "graph_ok G \<Longrightarrow> (s, t, d) \<in> set (g_edges G) \<Longrightarrow> has_node G s \<and> has_node G t"
  by (auto simp: graph_ok_def list_all_iff)

lemma expand_nodes:
  assumes "graph_ok G"
  shows "list_all (has_node G) (expand G r rel ns)"
proof -
  have "has_node G m" if "m \<in> set (incoming_sources G rel n)" for m n
    using that in_edges_subset [of G n] graph_ok_edge_ends [OF assms]
    by (auto simp: incoming_sources_def)
  moreover have "has_node G m" if "m \<in> set (outgoing_targets G rel n)" for m n
    using that out_edges_subset [of G n] graph_ok_edge_ends [OF assms]
    by (auto simp: outgoing_targets_def)
  ultimately show ?thesis
    by (auto simp: expand_def list_all_iff)
qed

lemma traverse_nodes:
  "graph_ok G \<Longrightarrow> list_all (has_node G) ns \<Longrightarrow> list_all (has_node G) (traverse G r chain ns)"
  by (induction chain arbitrary: ns) (auto simp: traverse_def expand_nodes)

lemma expand_mset:
  assumes "list_all (has_node G) ns"
  shows "mset (expand G True rel ns) = mset (concat (map (sources_into G rel) ns))"
    and "mset (expand G False rel ns) = mset (concat (map (targets_from G rel) ns))"
  using assms
  by (induction ns) (auto simp: expand_def incoming_sources_mset outgoing_targets_mset)

lemma execute_traverse:
  assumes "start_entity p = Some e" and "relation_chain p = Some chain"
  shows "execute G p =
           Inr (traverse G (reverse_lookup (case start_type p of None \<Rightarrow> PStr [] | Some t \<Rightarrow> t))
                  chain [e])"
  using assms by (simp add: execute_def follow_eq)

lemma has_node_add_edge: "has_node (add_edge G u v a) k \<longleftrightarrow> k = u \<or> k = v \<or> has_node G k"
  by (auto simp: has_node_attrs node_attrs_add_edge)

lemma has_node_empty [simp]: "\<not> has_node empty_graph k"
  by (simp add: has_node_attrs)

lemma g_edges_empty [simp]: "g_edges empty_graph = []"
  by (simp add: empty_graph_def)

lemma single_source:
  assumes "has_node G n" and "sources_into G rel n = [x]"
  shows "incoming_sources G rel n = [x]"
  using incoming_sources_mset [OF assms(1), of rel] assms(2) by simp

lemma single_target:
  assumes "has_node G n" and "targets_from G rel n = [x]"
  shows "outgoing_targets G rel n = [x]"
  using outgoing_targets_mset [OF assms(1), of rel] assms(2) by simp

lemma no_source:
  assumes "has_node G n" and "sources_into G rel n = []"
  shows "incoming_sources G rel n = []"
  using incoming_sources_mset [OF assms(1), of rel] assms(2) by simp

lemma no_target:
  assumes "has_node G n" and "targets_from G rel n = []"
  shows "outgoing_targets G rel n = []"
  using outgoing_targets_mset [OF assms(1), of rel] assms(2) by simp

lemma traverse_Cons: "traverse G r (rel # rels) ns = traverse G r rels (expand G r rel ns)"
  by (simp add: traverse_def)

lemma traverse_Nil [simp]: "traverse G r [] ns = ns"
  by (simp add: traverse_def)

lemma expand_single: "expand G r rel [n] = (if r then incoming_sources G rel n else outgoing_targets G rel n)"
  by (simp add: expand_def)

section \<open>Graph executor\<close>

subsection \<open>Direction of traversal\<close>

text \<open>
  Claim C1: \<open>execute\<close> takes the direction from the plan's \<open>start_type\<close> once and keeps it
  for the whole chain: it returns the working set \<open>[start_entity]\<close> expanded hop by hop,
  every hop in reverse when the start type is \<open>Power\<close> or \<open>Team\<close> and forward otherwise.
  On entities that are nodes, a reverse hop collects the sources of the edges into them
  that carry the hop's relation, a forward hop the targets of such edges out of them, each
  as often as there are such edges; and from a node of the graph every working set
  consists of nodes. In particular, where \<open>x\<close> is the one source of a \<open>POSSESSES_POWER\<close>
  edge into \<open>y\<close>, the plan from \<open>y\<close> of type \<open>Power\<close> returns \<open>[x]\<close>, and where \<open>y\<close> is the
  one target of such an edge out of \<open>x\<close>, the plan from \<open>x\<close> of type \<open>Character\<close> returns \<open>[y]\<close>.
\<close>

theorem execute_direction_from_start_type:
  "(start_entity p = Some e \<and> relation_chain p = Some chain \<longrightarrow>
      execute G p =
        Inr (traverse G (reverse_lookup (case start_type p of None \<Rightarrow> PStr [] | Some t \<Rightarrow> t))
               chain [e])) \<and>
   (list_all (has_node G) ns \<longrightarrow>
      mset (expand G True rel ns) = mset (concat (map (sources_into G rel) ns)) \<and>
      mset (expand G False rel ns) = mset (concat (map (targets_from G rel) ns))) \<and>
   (graph_ok G \<and> has_node G e \<longrightarrow> list_all (has_node G) (traverse G r chain [e])) \<and>
   (has_node G y \<and> sources_into G (py ''POSSESSES_POWER'') y = [x] \<longrightarrow>
      execute G \<lparr>start_entity = Some y, start_type = Some (PStr (py ''Power'')),
                 relation_chain = Some [py ''POSSESSES_POWER''], target_type = tt\<rparr> = Inr [x]) \<and>
   (has_node G x \<and> targets_from G (py ''POSSESSES_POWER'') x = [y] \<longrightarrow>
      execute G \<lparr>start_entity = Some x, start_type = Some (PStr (py ''Character'')),
                 relation_chain = Some [py ''POSSESSES_POWER''], target_type = tt\<rparr> = Inr [y])"
proof (intro conjI impI)
  assume "start_entity p = Some e \<and> relation_chain p = Some chain"
  then show "execute G p =
      Inr (traverse G (reverse_lookup (case start_type p of None \<Rightarrow> PStr [] | Some t \<Rightarrow> t)) chain [e])"
    by (simp add: execute_traverse)
next
  assume "list_all (has_node G) ns"
  then show "mset (expand G True rel ns) = mset (concat (map (sources_into G rel) ns))"
    by (rule expand_mset)
next
  assume "list_all (has_node G) ns"
  then show "mset (expand G False rel ns) = mset (concat (map (targets_from G rel) ns))"
    by (rule expand_mset)
next
  assume "graph_ok G \<and> has_node G e"
  then show "list_all (has_node G) (traverse G r chain [e])"
    by (simp add: traverse_nodes)
next
  assume "has_node G y \<and> sources_into G (py ''POSSESSES_POWER'') y = [x]"
  then show "execute G \<lparr>start_entity = Some y, start_type = Some (PStr (py ''Power'')),
                 relation_chain = Some [py ''POSSESSES_POWER''], target_type = tt\<rparr> = Inr [x]"
    by (simp add: execute_traverse traverse_Cons expand_single reverse_lookup_def single_source)
next
  assume "has_node G x \<and> targets_from G (py ''POSSESSES_POWER'') x = [y]"
  then show "execute G \<lparr>start_entity = Some x, start_type = Some (PStr (py ''Character'')),
                 relation_chain = Some [py ''POSSESSES_POWER''], target_type = tt\<rparr> = Inr [y]"
    by (simp add: execute_traverse traverse_Cons expand_single reverse_lookup_def single_target)
qed

lemma gXY_edges: "g_edges gXY = [(py ''X'', py ''Y'', [py ''relation'' \<mapsto> PStr (py ''POSSESSES_POWER'')])]"
  by (simp add: gXY_def built_by_def add_character_def add_power_def add_relationship_def g_edges_add_edge)

lemma gXY_nodes: "has_node gXY (py ''X'')" "has_node gXY (py ''Y'')"
  by (simp_all add: gXY_def built_by_def add_character_def add_power_def add_relationship_def has_node_add_edge)

theorem execute_direction_from_start_type_witness:
  "execute gXY \<lparr>start_entity = Some (py ''Y''), start_type = Some (PStr (py ''Power'')),
                 relation_chain = Some [py ''POSSESSES_POWER''], target_type = None\<rparr> = Inr [py ''X''] \<and>
   execute gXY \<lparr>start_entity = Some (py ''X''), start_type = Some (PStr (py ''Character'')),
                 relation_chain = Some [py ''POSSESSES_POWER''], target_type = None\<rparr> = Inr [py ''Y''] \<and>
   traverse gXY True [py ''POSSESSES_POWER''] [py ''Y''] = [py ''X''] \<and>
   mset (expand gXY True (py ''POSSESSES_POWER'') [py ''Y'']) = {#py ''X''#} \<and>
   mset (expand gXY False (py ''POSSESSES_POWER'') [py ''X'']) = {#py ''Y''#} \<and>
   list_all (has_node gXY) (traverse gXY True [py ''POSSESSES_POWER''] [py ''Y''])"
proof -
  have ok: "graph_ok gXY"
    by (simp add: gXY_def graph_ok_built_by)
  have src: "sources_into gXY (py ''POSSESSES_POWER'') (py ''Y'') = [py ''X'']"
    by (simp add: sources_into_def gXY_edges relation_is_def)
  have tgt: "targets_from gXY (py ''POSSESSES_POWER'') (py ''X'') = [py ''Y'']"
    by (simp add: targets_from_def gXY_edges relation_is_def)
  note T = execute_direction_from_start_type
  have a: "execute gXY \<lparr>start_entity = Some (py ''Y''), start_type = Some (PStr (py ''Power'')),
                 relation_chain = Some [py ''POSSESSES_POWER''], target_type = None\<rparr> = Inr [py ''X'']"
    using T [where G = gXY and y = "py ''Y''" and x = "py ''X''" and tt = None] gXY_nodes src by blast
  have b: "execute gXY \<lparr>start_entity = Some (py ''X''), start_type = Some (PStr (py ''Character'')),
                 relation_chain = Some [py ''POSSESSES_POWER''], target_type = None\<rparr> = Inr [py ''Y'']"
    using T [where G = gXY and y = "py ''Y''" and x = "py ''X''" and tt = None] gXY_nodes tgt by blast
  have c: "traverse gXY True [py ''POSSESSES_POWER''] [py ''Y''] = [py ''X'']"
    using T [where G = gXY and e = "py ''Y''" and chain = "[py ''POSSESSES_POWER'']"
               and p = "\<lparr>start_entity = Some (py ''Y''), start_type = Some (PStr (py ''Power'')),
                 relation_chain = Some [py ''POSSESSES_POWER''], target_type = None\<rparr>"] a
    by (simp add: reverse_lookup_def)
  have d: "mset (expand gXY True (py ''POSSESSES_POWER'') [py ''Y'']) = {#py ''X''#}"
    using T [where G = gXY and ns = "[py ''Y'']" and rel = "py ''POSSESSES_POWER''"] gXY_nodes src
    by simp
  have e: "mset (expand gXY False (py ''POSSESSES_POWER'') [py ''X'']) = {#py ''Y''#}"
    using T [where G = gXY and ns = "[py ''X'']" and rel = "py ''POSSESSES_POWER''"] gXY_nodes tgt
    by simp
  have f: "list_all (has_node gXY) (traverse gXY True [py ''POSSESSES_POWER''] [py ''Y''])"
    using T [where G = gXY and e = "py ''Y''" and r = True and chain = "[py ''POSSESSES_POWER'']"]
      ok gXY_nodes by blast
  from a b c d e f show ?thesis by blast
qed

subsection \<open>Chains of several hops\<close>

lemma targets_from_mem:
  "t \<in> set (targets_from G rel n) \<Longrightarrow> \<exists>d. (n, t, d) \<in> set (g_edges G)"
  by (auto simp: targets_from_def)

lemma execute_chain_append:
  assumes "execute G (p\<lparr>relation_chain := Some pre\<rparr>) = Inr ws"
  shows "execute G (p\<lparr>relation_chain := Some (pre @ post)\<rparr>) =
           Inr (traverse G (reverse_lookup (case start_type p of None \<Rightarrow> PStr [] | Some t \<Rightarrow> t)) post ws)"
  using assms by (auto simp: execute_def follow_eq traverse_append split: option.splits)

text \<open>
  Claim C6: in a graph where the only \<open>HAS_MUTATION\<close> edge out of \<open>w\<close> leads to \<open>g\<close> and
  the only \<open>CONFERS\<close> edge out of \<open>g\<close> leads to \<open>pw\<close>, the plan from \<open>w\<close> (a \<open>Character\<close>)
  with the chain \<open>[HAS_MUTATION, CONFERS]\<close> returns exactly \<open>[pw]\<close>. In general each hop
  works on what the hops before it produced: when the chain \<open>pre\<close> yields the working set
  \<open>ws\<close>, the chain \<open>pre @ post\<close> yields the expansion of \<open>ws\<close> along \<open>post\<close>.
\<close>

theorem execute_multi_hop:
  "(graph_ok G \<and> has_node G w \<and>
    targets_from G (py ''HAS_MUTATION'') w = [g] \<and> targets_from G (py ''CONFERS'') g = [pw] \<longrightarrow>
      execute G \<lparr>start_entity = Some w, start_type = Some (PStr (py ''Character'')),
                 relation_chain = Some [py ''HAS_MUTATION'', py ''CONFERS''], target_type = tt\<rparr>
        = Inr [pw]) \<and>
   (execute G (p\<lparr>relation_chain := Some pre\<rparr>) = Inr ws \<longrightarrow>
      execute G (p\<lparr>relation_chain := Some (pre @ post)\<rparr>) =
        Inr (traverse G (reverse_lookup (case start_type p of None \<Rightarrow> PStr [] | Some t \<Rightarrow> t)) post ws))"
proof (intro conjI impI)
  assume h: "graph_ok G \<and> has_node G w \<and>
    targets_from G (py ''HAS_MUTATION'') w = [g] \<and> targets_from G (py ''CONFERS'') g = [pw]"
  then obtain d where "(w, g, d) \<in> set (g_edges G)"
    using targets_from_mem [of g G "py ''HAS_MUTATION''" w] by auto
  with h have "has_node G g"
    using graph_ok_edge_ends by blast
  with h show "execute G \<lparr>start_entity = Some w, start_type = Some (PStr (py ''Character'')),
                 relation_chain = Some [py ''HAS_MUTATION'', py ''CONFERS''], target_type = tt\<rparr>
        = Inr [pw]"
    by (simp add: execute_traverse traverse_Cons expand_single reverse_lookup_def single_target)
next
  assume "execute G (p\<lparr>relation_chain := Some pre\<rparr>) = Inr ws"
  then show "execute G (p\<lparr>relation_chain := Some (pre @ post)\<rparr>) =
        Inr (traverse G (reverse_lookup (case start_type p of None \<Rightarrow> PStr [] | Some t \<Rightarrow> t)) post ws)"
    by (rule execute_chain_append)
qed

lemma gWGP_edges:
  "g_edges gWGP = [(py ''W'', py ''G'', [py ''relation'' \<mapsto> PStr (py ''HAS_MUTATION'')]),
                   (py ''G'', py ''P'', [py ''relation'' \<mapsto> PStr (py ''CONFERS'')])]"
  by (simp add: gWGP_def built_by_def add_character_def add_power_def add_gene_def
        add_relationship_def g_edges_add_edge)

lemma gWGP_nodes: "has_node gWGP (py ''W'')"
  by (simp add: gWGP_def built_by_def add_character_def add_power_def add_gene_def
        add_relationship_def has_node_add_edge)

theorem execute_multi_hop_witness:
  "execute gWGP \<lparr>start_entity = Some (py ''W''), start_type = Some (PStr (py ''Character'')),
                  relation_chain = Some [py ''HAS_MUTATION'', py ''CONFERS''], target_type = Some (py ''Power'')\<rparr>
     = Inr [py ''P''] \<and>
   execute gWGP \<lparr>start_entity = Some (py ''W''), start_type = Some (PStr (py ''Character'')),
                  relation_chain = Some [py ''HAS_MUTATION''], target_type = Some (py ''Power'')\<rparr>
     = Inr [py ''G'']"
proof -
  let ?p = "\<lparr>start_entity = Some (py ''W''), start_type = Some (PStr (py ''Character'')),
             relation_chain = Some [py ''HAS_MUTATION'', py ''CONFERS''], target_type = Some (py ''Power'')\<rparr>"
  have ok: "graph_ok gWGP"
    by (simp add: gWGP_def graph_ok_built_by)
  have t1: "targets_from gWGP (py ''HAS_MUTATION'') (py ''W'') = [py ''G'']"
    by (simp add: targets_from_def gWGP_edges relation_is_def)
  have t2: "targets_from gWGP (py ''CONFERS'') (py ''G'') = [py ''P'']"
    by (simp add: targets_from_def gWGP_edges relation_is_def)
  note T = execute_multi_hop [where G = gWGP and w = "py ''W''" and g = "py ''G''" and pw = "py ''P''"
             and tt = "Some (py ''Power'')" and p = ?p and pre = "[py ''HAS_MUTATION'']"
             and post = "[py ''CONFERS'']" and ws = "[py ''G'']"]
  have a: "execute gWGP ?p = Inr [py ''P'']"
    using T ok gWGP_nodes t1 t2 by blast
  have one: "execute gWGP (?p\<lparr>relation_chain := Some [py ''HAS_MUTATION'']\<rparr>) = Inr [py ''G'']"
    by (simp add: execute_traverse traverse_Cons expand_single reverse_lookup_def
          single_target [OF gWGP_nodes t1])
  from T one have "execute gWGP (?p\<lparr>relation_chain := Some ([py ''HAS_MUTATION''] @ [py ''CONFERS''])\<rparr>)
      = Inr (traverse gWGP (reverse_lookup (case start_type ?p of None \<Rightarrow> PStr [] | Some t \<Rightarrow> t))
               [py ''CONFERS''] [py ''G''])"
    by blast
  with a one show ?thesis by simp
qed

subsection \<open>Empty results\<close>

text \<open>
  Claim C7: once the working set is empty it stays empty, and \<open>execute\<close> returns the
  empty list: if the chain \<open>pre\<close> ends with nothing, so does \<open>pre @ post\<close>. A well-formed
  plan always returns a list and raises nothing. In particular a plan whose first hop
  finds no edge of its relation at the start node, in the direction of the plan, returns
  the empty list.
\<close>

theorem execute_empty_working_set:
  "(execute G (p\<lparr>relation_chain := Some pre\<rparr>) = Inr [] \<longrightarrow>
      execute G (p\<lparr>relation_chain := Some (pre @ post)\<rparr>) = Inr []) \<and>
   (well_formed G p \<longrightarrow> (\<exists>result. execute G p = Inr result)) \<and>
   (has_node G e \<and> sources_into G rel e = [] \<and> reverse_lookup t \<longrightarrow>
      execute G \<lparr>start_entity = Some e, start_type = Some t,
                 relation_chain = Some (rel # rels), target_type = tt\<rparr> = Inr []) \<and>
   (has_node G e \<and> targets_from G rel e = [] \<and> \<not> reverse_lookup t \<longrightarrow>
      execute G \<lparr>start_entity = Some e, start_type = Some t,
                 relation_chain = Some (rel # rels), target_type = tt\<rparr> = Inr [])"
proof (intro conjI impI)
  assume "execute G (p\<lparr>relation_chain := Some pre\<rparr>) = Inr []"
  from execute_chain_append [OF this, of post]
  show "execute G (p\<lparr>relation_chain := Some (pre @ post)\<rparr>) = Inr []"
    by simp
next
  assume "well_formed G p"
  then show "\<exists>result. execute G p = Inr result"
    by (auto simp: well_formed_def execute_def split: option.splits)
next
  assume "has_node G e \<and> sources_into G rel e = [] \<and> reverse_lookup t"
  then show "execute G \<lparr>start_entity = Some e, start_type = Some t,
                 relation_chain = Some (rel # rels), target_type = tt\<rparr> = Inr []"
    by (simp add: execute_traverse traverse_Cons expand_single no_source)
next
  assume "has_node G e \<and> targets_from G rel e = [] \<and> \<not> reverse_lookup t"
  then show "execute G \<lparr>start_entity = Some e, start_type = Some t,
                 relation_chain = Some (rel # rels), target_type = tt\<rparr> = Inr []"
    by (simp add: execute_traverse traverse_Cons expand_single no_target)
qed

theorem execute_empty_working_set_witness:
  "well_formed gXY \<lparr>start_entity = Some (py ''X''), start_type = Some (PStr (py ''Character'')),
                    relation_chain = Some [py ''MEMBER_OF'', py ''POSSESSES_POWER''], target_type = None\<rparr> \<and>
   execute gXY \<lparr>start_entity = Some (py ''X''), start_type = Some (PStr (py ''Character'')),
                 relation_chain = Some [py ''MEMBER_OF'', py ''POSSESSES_POWER''], target_type = None\<rparr> = Inr [] \<and>
   execute gXY \<lparr>start_entity = Some (py ''X''), start_type = Some (PStr (py ''Team'')),
                 relation_chain = Some [py ''POSSESSES_POWER''], target_type = None\<rparr> = Inr [] \<and>
   execute gXY \<lparr>start_entity = Some (py ''X''), start_type = Some (PStr (py ''Character'')),
                 relation_chain = Some ([py ''MEMBER_OF''] @ [py ''POSSESSES_POWER'']), target_type = None\<rparr> = Inr []"
proof -
  let ?p = "\<lparr>start_entity = Some (py ''X''), start_type = Some (PStr (py ''Character'')),
             relation_chain = Some [py ''MEMBER_OF'', py ''POSSESSES_POWER''], target_type = None\<rparr>"
  have wf: "well_formed gXY ?p"
    by (simp add: well_formed_def gXY_nodes)
  have nt: "targets_from gXY (py ''MEMBER_OF'') (py ''X'') = []"
    by (simp add: targets_from_def gXY_edges relation_is_def)
  have ns: "sources_into gXY (py ''POSSESSES_POWER'') (py ''X'') = []"
    by (simp add: sources_into_def gXY_edges)
  have r1: "\<not> reverse_lookup (PStr (py ''Character''))" and r2: "reverse_lookup (PStr (py ''Team''))"
    by (simp_all add: reverse_lookup_def)
  note T = execute_empty_working_set
  have a: "execute gXY ?p = Inr []"
    using T [where G = gXY and e = "py ''X''" and rel = "py ''MEMBER_OF''" and rels = "[py ''POSSESSES_POWER'']"
               and t = "PStr (py ''Character'')" and tt = None] gXY_nodes nt r1 by blast
  have b: "execute gXY \<lparr>start_entity = Some (py ''X''), start_type = Some (PStr (py ''Team'')),
                 relation_chain = Some [py ''POSSESSES_POWER''], target_type = None\<rparr> = Inr []"
    using T [where G = gXY and e = "py ''X''" and rel = "py ''POSSESSES_POWER''" and rels = "[]"
               and t = "PStr (py ''Team'')" and tt = None] gXY_nodes ns r2 by blast
  have hop1: "execute gXY (?p\<lparr>relation_chain := Some [py ''MEMBER_OF'']\<rparr>) = Inr []"
    using T [where G = gXY and e = "py ''X''" and rel = "py ''MEMBER_OF''" and rels = "[]"
               and t = "PStr (py ''Character'')" and tt = None] gXY_nodes nt r1 by simp
  have c: "execute gXY (?p\<lparr>relation_chain := Some ([py ''MEMBER_OF''] @ [py ''POSSESSES_POWER''])\<rparr>) = Inr []"
    using T [where G = gXY and p = ?p and pre = "[py ''MEMBER_OF'']" and post = "[py ''POSSESSES_POWER'']"] hop1
    by blast
  have d: "\<exists>result. execute gXY ?p = Inr result"
    using T [where G = gXY and p = ?p] wf by blast
  from wf a b c d show ?thesis by simp
qed

section \<open>Loading: the relation of an edge\<close>

lemma resolve_relation_first_truthy:
  "resolve_relation a = first_truthy a candidates (PStr (py ''RELATED_TO''))"
  by (simp add: resolve_relation_def candidates_def py_or_def py_or_const_def split: option.splits)

lemma first_truthy_present:
  "\<forall>k\<in>set ks. \<forall>v. a k = Some v \<longrightarrow> truthy v \<Longrightarrow> first_truthy a ks d = first_present a ks d"
  by (induction ks) (auto split: option.splits)

lemma g_edges_fold_nodes:
  "g_edges (fold (\<lambda>(node_id, a) G. add_node G node_id a) ns G) = g_edges G"
  by (induction ns arbitrary: G) auto

lemma g_edges_fold_edges:
  "g_edges (fold (\<lambda>(src, dst, a) G. add_edge G src dst (f a)) es G)
     = g_edges G @ map (\<lambda>(src, dst, a). (src, dst, f a)) es"
  by (induction es arbitrary: G) (auto simp: g_edges_add_edge)

lemma g_edges_from_graphml:
  "g_edges (from_graphml raw) =
     map (\<lambda>(src, dst, a). (src, dst, [py ''relation'' \<mapsto> resolve_relation a])) (raw_edges raw)"
  by (simp add: from_graphml_def Let_def g_edges_fold_edges g_edges_fold_nodes)

lemma edge_relations_from_graphml:
  "edge_relations (from_graphml raw) = map (\<lambda>(src, dst, a). Some (resolve_relation a)) (raw_edges raw)"
  by (simp add: edge_relations_def g_edges_from_graphml case_prod_unfold)

lemma first_truthy_all_truthy:
  "all_truthy a \<Longrightarrow> first_truthy a candidates d = first_present a candidates d"
  by (simp add: all_truthy_def first_truthy_present)

text \<open>
  Claim C5, as amended: \<open>from_graphml\<close> gives every edge, as its relation, the value of the
  first of the attributes \<open>relation\<close>, \<open>label\<close>, \<open>type\<close>, \<open>name\<close> that is present with a
  truthy value (not an empty string, zero or false), and \<open>"RELATED_TO"\<close> when there is none.
  Where every candidate that is present is truthy, this is the first candidate present.
  In particular an edge whose relation is stored only under \<open>type\<close>, with a truthy value,
  gets that value.
\<close>

theorem from_graphml_first_truthy_candidate:
  "edge_relations (from_graphml raw) =
     map (\<lambda>(src, dst, a). Some (first_truthy a candidates (PStr (py ''RELATED_TO'')))) (raw_edges raw) \<and>
   (list_all (\<lambda>(src, dst, a). all_truthy a) (raw_edges raw) \<longrightarrow>
      edge_relations (from_graphml raw) = resolved_by_presence raw) \<and>
   (a (py ''relation'') = None \<and> a (py ''label'') = None \<and> a (py ''name'') = None \<and>
    a (py ''type'') = Some v \<and> truthy v \<longrightarrow>
      edge_relations (from_graphml \<lparr>raw_nodes = ns, raw_edges = [(src, dst, a)]\<rparr>) = [Some v])"
proof (intro conjI impI)
  show "edge_relations (from_graphml raw) =
     map (\<lambda>(src, dst, a). Some (first_truthy a candidates (PStr (py ''RELATED_TO'')))) (raw_edges raw)"
    by (simp add: edge_relations_from_graphml resolve_relation_first_truthy)
next
  assume "list_all (\<lambda>(src, dst, a). all_truthy a) (raw_edges raw)"
  then show "edge_relations (from_graphml raw) = resolved_by_presence raw"
    by (auto simp: edge_relations_from_graphml resolve_relation_first_truthy resolved_by_presence_def
          list_all_iff first_truthy_all_truthy)
next
  assume "a (py ''relation'') = None \<and> a (py ''label'') = None \<and> a (py ''name'') = None \<and>
    a (py ''type'') = Some v \<and> truthy v"
  then show "edge_relations (from_graphml \<lparr>raw_nodes = ns, raw_edges = [(src, dst, a)]\<rparr>) = [Some v]"
    by (simp add: edge_relations_from_graphml resolve_relation_first_truthy candidates_def)
qed

theorem from_graphml_first_truthy_candidate_witness:
  "edge_relations (from_graphml raw_typed) = [Some (PStr (py ''MEMBER_OF''))] \<and>
   resolved_by_presence raw_typed = [Some (PStr (py ''MEMBER_OF''))]"
proof -
  let ?a = "[py ''type'' \<mapsto> PStr (py ''MEMBER_OF'')]"
  note T = from_graphml_first_truthy_candidate
             [where raw = raw_typed and a = ?a and v = "PStr (py ''MEMBER_OF'')"
                and ns = "raw_nodes raw_typed" and src = "py ''Storm''" and dst = "py ''X-Men''"]
  have r: "\<lparr>raw_nodes = raw_nodes raw_typed, raw_edges = [(py ''Storm'', py ''X-Men'', ?a)]\<rparr> = raw_typed"
    by (simp add: raw_typed_def)
  have h1: "list_all (\<lambda>(src, dst, a). all_truthy a) (raw_edges raw_typed)"
    by (simp add: raw_typed_def all_truthy_def candidates_def)
  have h2: "?a (py ''relation'') = None \<and> ?a (py ''label'') = None \<and> ?a (py ''name'') = None \<and>
            ?a (py ''type'') = Some (PStr (py ''MEMBER_OF'')) \<and> truthy (PStr (py ''MEMBER_OF''))"
    by simp
  from T h2 have "edge_relations
      (from_graphml \<lparr>raw_nodes = raw_nodes raw_typed, raw_edges = [(py ''Storm'', py ''X-Men'', ?a)]\<rparr>)
        = [Some (PStr (py ''MEMBER_OF''))]"
    by blast
  then have v: "edge_relations (from_graphml raw_typed) = [Some (PStr (py ''MEMBER_OF''))]"
    by (simp only: r)
  from T h1 have "edge_relations (from_graphml raw_typed) = resolved_by_presence raw_typed"
    by blast
  with v show ?thesis by simp
qed

text \<open>
  C5 as stated fails on a falsy value: an edge whose only candidate attribute is
  \<open>type = 0\<close> is loaded with the relation \<open>"RELATED_TO"\<close>, not with the value of \<open>type\<close>.
\<close>

theorem from_graphml_falsy_type_counterexample:
  "edge_relations (from_graphml raw_zero) = [Some (PStr (py ''RELATED_TO''))] \<and>
   resolved_by_presence raw_zero = [Some (PInt 0)]"
  by (simp add: edge_relations_from_graphml raw_zero_def resolve_relation_first_truthy candidates_def
        resolved_by_presence_def)

section \<open>Query interpreter\<close>

subsection \<open>Substrings and dashes\<close>

lemma str_in_sublist: "str_in w s \<longleftrightarrow> sublist w s"
  by (induction s) (auto simp: sublist_Cons_right)

lemma str_in_map: "str_in w s \<Longrightarrow> str_in (map f w) (map f s)"
  by (simp add: str_in_sublist map_mono_sublist)

lemma str_in_replace: "str_in w s \<Longrightarrow> str_in (replace_cp a b w) (replace_cp a b s)"
  by (simp add: replace_cp_def str_in_map)

lemma to_ascii_idem [simp]:
  "replace_cp nb_hyphen hyphen (replace_cp nb_hyphen hyphen s) = replace_cp nb_hyphen hyphen s"
  by (simp add: replace_cp_def nb_hyphen_def hyphen_def)

lemma to_nb_idem [simp]:
  "replace_cp hyphen nb_hyphen (replace_cp hyphen nb_hyphen s) = replace_cp hyphen nb_hyphen s"
  by (simp add: replace_cp_def nb_hyphen_def hyphen_def)

lemma to_ascii_to_nb [simp]:
  "replace_cp nb_hyphen hyphen (replace_cp hyphen nb_hyphen s) = replace_cp nb_hyphen hyphen s"
  by (simp add: replace_cp_def nb_hyphen_def hyphen_def)

lemma to_nb_to_ascii [simp]:
  "replace_cp hyphen nb_hyphen (replace_cp nb_hyphen hyphen s) = replace_cp hyphen nb_hyphen s"
  by (simp add: replace_cp_def nb_hyphen_def hyphen_def)

lemma node_matches_ascii_question:
  "node_matches nl (replace_cp nb_hyphen hyphen ql)
     \<longleftrightarrow> str_in (replace_cp nb_hyphen hyphen nl) (replace_cp nb_hyphen hyphen ql)"
  using str_in_replace [of nl "replace_cp nb_hyphen hyphen ql" nb_hyphen hyphen]
        str_in_replace [of "replace_cp hyphen nb_hyphen nl" "replace_cp nb_hyphen hyphen ql" nb_hyphen hyphen]
  by (auto simp: node_matches_def)

lemma node_matches_nb_question:
  "node_matches nl (replace_cp hyphen nb_hyphen ql)
     \<longleftrightarrow> str_in (replace_cp hyphen nb_hyphen nl) (replace_cp hyphen nb_hyphen ql)"
  using str_in_replace [of nl "replace_cp hyphen nb_hyphen ql" hyphen nb_hyphen]
        str_in_replace [of "replace_cp nb_hyphen hyphen nl" "replace_cp hyphen nb_hyphen ql" hyphen nb_hyphen]
  by (auto simp: node_matches_def)

lemma node_matches_dash_invariant:
  "node_matches nl (replace_cp nb_hyphen hyphen ql) = node_matches nl (replace_cp hyphen nb_hyphen ql)"
proof -
  have "str_in (replace_cp nb_hyphen hyphen nl) (replace_cp nb_hyphen hyphen ql)
          \<longleftrightarrow> str_in (replace_cp hyphen nb_hyphen nl) (replace_cp hyphen nb_hyphen ql)"
    using str_in_replace [of "replace_cp nb_hyphen hyphen nl" "replace_cp nb_hyphen hyphen ql" hyphen nb_hyphen]
          str_in_replace [of "replace_cp hyphen nb_hyphen nl" "replace_cp hyphen nb_hyphen ql" nb_hyphen hyphen]
    by auto
  then show ?thesis
    by (simp add: node_matches_ascii_question node_matches_nb_question)
qed

lemma find_only_match:
  "n \<in> set xs \<Longrightarrow> P n \<Longrightarrow> list_all (\<lambda>m. m = n \<or> \<not> P m) xs \<Longrightarrow> find P xs = Some n"
  by (induction xs) auto

lemma find_exists:
  "n \<in> set xs \<Longrightarrow> P n \<Longrightarrow> \<exists>m. find P xs = Some m \<and> m \<in> set xs \<and> P m"
  by (induction xs) auto

lemma ascii_lower_replace:
  "ascii_lower (replace_cp nb_hyphen hyphen s) = replace_cp nb_hyphen hyphen (ascii_lower s)"
  "ascii_lower (replace_cp hyphen nb_hyphen s) = replace_cp hyphen nb_hyphen (ascii_lower s)"
  by (simp_all add: ascii_lower_def replace_cp_def nb_hyphen_def hyphen_def)

subsection \<open>The example graph\<close>

lemma g_nodes_empty [simp]: "g_nodes empty_graph = []"
  by (simp add: empty_graph_def)

lemma names_add_edge:
  "map fst (g_nodes (add_edge G u v a)) =
     map fst (g_nodes G) @ (if has_node G u then [] else [u]) @ (if has_node G v \<or> v = u then [] else [v])"
  by (auto simp: add_edge_def Let_def names_add_node has_node_add_node)

lemma marvel_names:
  "map fst (g_nodes marvel) =
     [py ''Wolverine'', spider_man, x_men, py ''Regenerative Mutation'', py ''Accelerated Healing'']"
  by (simp add: marvel_def marvel_raw_def from_graphml_def names_add_edge names_add_node
        has_node_add_node has_node_add_edge spider_man_def x_men_def py_def nb_hyphen_def)

lemma marvel_attrs:
  "node_attrs marvel (py ''Wolverine'') =
     Some [py ''label'' \<mapsto> PStr (py ''Character''), py ''name'' \<mapsto> PStr (py ''Wolverine'')]"
  "node_attrs marvel spider_man =
     Some [py ''label'' \<mapsto> PStr (py ''Character''), py ''name'' \<mapsto> PStr spider_man]"
  "node_attrs marvel x_men = Some [py ''label'' \<mapsto> PStr (py ''Team''), py ''name'' \<mapsto> PStr x_men]"
  "node_attrs marvel (py ''Regenerative Mutation'') =
     Some [py ''label'' \<mapsto> PStr (py ''Gene''), py ''name'' \<mapsto> PStr (py ''Regenerative Mutation'')]"
  "node_attrs marvel (py ''Accelerated Healing'') =
     Some [py ''label'' \<mapsto> PStr (py ''Power''), py ''name'' \<mapsto> PStr (py ''Accelerated Healing'')]"
  by (simp_all add: marvel_def marvel_raw_def from_graphml_def node_attrs_add_edge node_attrs_add_node
        has_node_add_node has_node_add_edge spider_man_def x_men_def py_def nb_hyphen_def)

lemma marvel_types:
  "node_type marvel (py ''Wolverine'') = Inr (PStr (py ''Character''))"
  "node_type marvel spider_man = Inr (PStr (py ''Character''))"
  "node_type marvel x_men = Inr (PStr (py ''Team''))"
  "node_type marvel (py ''Regenerative Mutation'') = Inr (PStr (py ''Gene''))"
  "node_type marvel (py ''Accelerated Healing'') = Inr (PStr (py ''Power''))"
  by (simp_all add: node_type_attrs marvel_attrs)

subsection \<open>Recognition by the fallback pass\<close>

text \<open>
  Claim C8: the fallback pass of \<open>_extract_entity\<close> does not depend on the dash variant or
  on letter case. If the lowered question contains the lowered name of a node \<open>n\<close>, as it
  is or with its dashes written as ASCII hyphens or as non-breaking hyphens, the pass finds
  an entity: the first node, in the graph's order, whose name occurs so, which is \<open>n\<close> when
  no other node's name occurs. Writing all dashes of the question as ASCII hyphens or all
  as non-breaking hyphens gives the same result (\<open>str.lower\<close> leaves dashes alone), and so do
  two questions with the same lowered text.
\<close>

theorem fallback_dash_and_case_invariant:
  "(has_node G n \<and>
    (str_in (lower n) (lower q) \<or>
     str_in (replace_cp nb_hyphen hyphen (lower n)) (lower q) \<or>
     str_in (replace_cp hyphen nb_hyphen (lower n)) (lower q)) \<longrightarrow>
      (\<exists>m. extract_fallback lower G q = Some m \<and> has_node G m \<and> node_matches (lower m) (lower q)) \<and>
      (list_all (\<lambda>m. m = n \<or> \<not> node_matches (lower m) (lower q)) (map fst (g_nodes G)) \<longrightarrow>
         extract_fallback lower G q = Some n)) \<and>
   (lower (replace_cp nb_hyphen hyphen q) = replace_cp nb_hyphen hyphen (lower q) \<and>
    lower (replace_cp hyphen nb_hyphen q) = replace_cp hyphen nb_hyphen (lower q) \<longrightarrow>
      extract_fallback lower G (replace_cp nb_hyphen hyphen q)
        = extract_fallback lower G (replace_cp hyphen nb_hyphen q)) \<and>
   (lower q = lower q' \<longrightarrow> extract_fallback lower G q = extract_fallback lower G q')"
proof (intro conjI impI)
  assume h: "has_node G n \<and>
    (str_in (lower n) (lower q) \<or>
     str_in (replace_cp nb_hyphen hyphen (lower n)) (lower q) \<or>
     str_in (replace_cp hyphen nb_hyphen (lower n)) (lower q))"
  then have n: "n \<in> set (map fst (g_nodes G))" and m: "node_matches (lower n) (lower q)"
    by (auto simp: has_node_iff node_matches_def)
  from find_exists [of n "map fst (g_nodes G)" "\<lambda>m. node_matches (lower m) (lower q)", OF n m]
  show "\<exists>m. extract_fallback lower G q = Some m \<and> has_node G m \<and> node_matches (lower m) (lower q)"
    by (auto simp: extract_fallback_def Let_def has_node_iff)
  assume "list_all (\<lambda>m. m = n \<or> \<not> node_matches (lower m) (lower q)) (map fst (g_nodes G))"
  with n m show "extract_fallback lower G q = Some n"
    unfolding extract_fallback_def Let_def
    by (intro find_only_match) auto
next
  assume "lower (replace_cp nb_hyphen hyphen q) = replace_cp nb_hyphen hyphen (lower q) \<and>
    lower (replace_cp hyphen nb_hyphen q) = replace_cp hyphen nb_hyphen (lower q)"
  then show "extract_fallback lower G (replace_cp nb_hyphen hyphen q)
        = extract_fallback lower G (replace_cp hyphen nb_hyphen q)"
    by (simp add: extract_fallback_def node_matches_dash_invariant)
next
  assume "lower q = lower q'"
  then show "extract_fallback lower G q = extract_fallback lower G q'"
    by (simp add: extract_fallback_def)
qed

theorem fallback_dash_and_case_invariant_witness:
  "extract_fallback ascii_lower marvel (py ''What can SPIDER-MAN do?'') = Some spider_man \<and>
   extract_fallback ascii_lower marvel (replace_cp hyphen nb_hyphen (py ''What can SPIDER-MAN do?''))
     = Some spider_man \<and>
   extract_fallback ascii_lower marvel (py ''what can spider-man do?'') = Some spider_man"
proof -
  let ?q = "py ''What can SPIDER-MAN do?''"
  let ?q' = "py ''what can spider-man do?''"
  note T = fallback_dash_and_case_invariant
             [where G = marvel and n = spider_man and lower = ascii_lower and q = ?q and q' = ?q']
  have n: "has_node marvel spider_man"
    by (simp add: has_node_attrs marvel_attrs)
  have m: "str_in (replace_cp nb_hyphen hyphen (ascii_lower spider_man)) (ascii_lower ?q)"
    by (simp add: py_def ascii_lower_def spider_man_def replace_cp_def nb_hyphen_def hyphen_def)
  have only: "list_all (\<lambda>m. m = spider_man \<or> \<not> node_matches (ascii_lower m) (ascii_lower ?q))
                (map fst (g_nodes marvel))"
    by (simp add: marvel_names node_matches_def)
       (simp add: py_def ascii_lower_def spider_man_def x_men_def replace_cp_def nb_hyphen_def hyphen_def)
  have a: "extract_fallback ascii_lower marvel ?q = Some spider_man"
    using T n m only by blast
  have plain: "replace_cp nb_hyphen hyphen ?q = ?q"
    by (simp add: py_def replace_cp_def nb_hyphen_def hyphen_def)
  have "extract_fallback ascii_lower marvel (replace_cp nb_hyphen hyphen ?q)
          = extract_fallback ascii_lower marvel (replace_cp hyphen nb_hyphen ?q)"
    using T ascii_lower_replace by blast
  with a plain have b: "extract_fallback ascii_lower marvel (replace_cp hyphen nb_hyphen ?q) = Some spider_man"
    by simp
  have "ascii_lower ?q = ascii_lower ?q'"
    by (simp add: py_def ascii_lower_def)
  with T have "extract_fallback ascii_lower marvel ?q = extract_fallback ascii_lower marvel ?q'"
    by blast
  with a b show ?thesis by simp
qed

subsection \<open>Errors of \<open>interpret\<close>\<close>

lemma extract_entity_node: "extract_entity nlp lower G q = Some e \<Longrightarrow> has_node G e"
  by (auto simp: extract_entity_def extract_fallback_def Let_def has_node_iff find_Some_iff
        split: option.splits)

lemma foldl_max_mem:
  "foldl (\<lambda>best y. if f best < f y then y else best) x xs \<in> set (x # xs)"
  by (induction xs arbitrary: x) (auto split: if_splits)

lemma py_max_mem: "py_max f xs = Some y \<Longrightarrow> y \<in> set xs"
  using foldl_max_mem [of f] by (cases xs) auto

lemma py_max_nonempty: "xs \<noteq> [] \<Longrightarrow> \<exists>y. py_max f xs = Some y"
  by (cases xs) auto

lemma semantic_intent_ok:
  "\<exists>intent chain. semantic_intent sim q = Inr (intent, chain) \<and> chain \<noteq> []"
proof -
  obtain k where k: "py_max (sim q) (map fst intent_templates) = Some k"
    using py_max_nonempty [of "map fst intent_templates" "sim q"] by (auto simp: intent_templates_def)
  then have "k \<in> set (map fst intent_templates)"
    by (rule py_max_mem)
  then have "\<exists>d chain. map_of intent_templates k = Some (d, chain) \<and> chain \<noteq> []"
    by (auto simp: intent_templates_def)
  with k show ?thesis
    by (auto simp: semantic_intent_def)
qed

lemma choose_intent_ok:
  "\<exists>intent chain. choose_intent lower sim t q = Inr (intent, chain) \<and> chain \<noteq> []"
  using semantic_intent_ok [of sim q] by (auto simp: choose_intent_def Let_def)

lemma interpret_trace_cases:
  "(extract_entity nlp lower G q = None \<and> interpret_trace nlp lower sim G q = Inl ValueError) \<or>
   (\<exists>e t intent chain.
      extract_entity nlp lower G q = Some e \<and> has_node G e \<and> node_type G e = Inr t \<and>
      choose_intent lower sim t q = Inr (intent, chain) \<and> chain \<noteq> [] \<and>
      interpret_trace nlp lower sim G q =
        Inr (intent, \<lparr>start_entity = Some e, start_type = Some t, relation_chain = Some chain,
                      target_type = Some (target_of intent)\<rparr>))"
proof (cases "extract_entity nlp lower G q")
  case None
  then show ?thesis by (simp add: interpret_trace_def)
next
  case (Some e)
  then have n: "has_node G e" by (rule extract_entity_node)
  then obtain t where t: "node_type G e = Inr t"
    by (auto simp: node_type_attrs has_node_attrs)
  obtain intent chain where c: "choose_intent lower sim t q = Inr (intent, chain)" "chain \<noteq> []"
    using choose_intent_ok [of lower sim t q] by auto
  from Some n t c show ?thesis
    by (simp add: interpret_trace_def)
qed

text \<open>
  Claim C3: \<open>interpret\<close> raises an error exactly when \<open>_extract_entity\<close> finds no entity, and
  the error is then the \<open>ValueError\<close> of that case; the entity it found is a node, so
  \<open>node_type\<close> does not raise, and the maximum over the five templates exists. A plan it
  returns is well formed, and \<open>execute\<close> returns a list for every well-formed plan.
\<close>

theorem interpret_fails_only_without_entity:
  "((\<exists>err. interpret_query nlp lower sim G q = Inl err) \<longleftrightarrow> extract_entity nlp lower G q = None) \<and>
   (interpret_query nlp lower sim G q = Inl err \<longrightarrow> err = ValueError) \<and>
   (interpret_query nlp lower sim G q = Inr p \<longrightarrow> well_formed G p) \<and>
   (well_formed G p' \<longrightarrow> (\<exists>result. execute G p' = Inr result))"
proof -
  have "well_formed G p' \<longrightarrow> (\<exists>result. execute G p' = Inr result)"
    by (auto simp: well_formed_def execute_def split: option.splits)
  then show ?thesis
    using interpret_trace_cases [of nlp lower G q sim]
    by (auto simp: interpret_query_def well_formed_def)
qed

theorem interpret_fails_only_without_entity_witness:
  "extract_entity None ascii_lower marvel (py ''asdkfjasldkf'') = None \<and>
   interpret_query None ascii_lower flat_sim marvel (py ''asdkfjasldkf'') = Inl ValueError \<and>
   (\<exists>p. interpret_query None ascii_lower flat_sim marvel (py ''Who is in the X-Men?'') = Inr p \<and>
        well_formed marvel p \<and> (\<exists>result. execute marvel p = Inr result))"
proof -
  let ?bad = "py ''asdkfjasldkf''"
  let ?good = "py ''Who is in the X-Men?''"
  note T = interpret_fails_only_without_entity [where nlp = None and lower = ascii_lower and sim = flat_sim and G = marvel]
  have none: "extract_entity None ascii_lower marvel ?bad = None"
    by (simp add: extract_entity_def extract_fallback_def marvel_names node_matches_def)
       (simp add: py_def ascii_lower_def spider_man_def x_men_def replace_cp_def nb_hyphen_def hyphen_def)
  with T [where q = ?bad] obtain err where err: "interpret_query None ascii_lower flat_sim marvel ?bad = Inl err"
    by blast
  with T [where q = ?bad and err = err] have bad: "interpret_query None ascii_lower flat_sim marvel ?bad = Inl ValueError"
    by blast
  have some: "extract_entity None ascii_lower marvel ?good = Some x_men"
    by (simp add: extract_entity_def extract_fallback_def marvel_names node_matches_def)
       (simp add: py_def ascii_lower_def spider_man_def x_men_def replace_cp_def nb_hyphen_def hyphen_def)
  with T [where q = ?good] have "\<not> (\<exists>err. interpret_query None ascii_lower flat_sim marvel ?good = Inl err)"
    by simp
  then obtain p where p: "interpret_query None ascii_lower flat_sim marvel ?good = Inr p"
    by (cases "interpret_query None ascii_lower flat_sim marvel ?good") auto
  with T [where q = ?good and p = p] have wf: "well_formed marvel p"
    by blast
  with T [where p' = p] have "\<exists>result. execute marvel p = Inr result"
    by blast
  with none bad p wf show ?thesis by blast
qed

subsection \<open>Dispatch on the entity type\<close>

lemma target_of_values:
  "target_of (py ''gene_power'') = py ''Power''"
  "target_of (py ''power_character'') = py ''Character''"
  "target_of (py ''team_character'') = py ''Character''"
  "target_of (py ''character_gene'') = py ''Gene''"
  by (simp_all add: target_of_def suffix_to_prefix py_def)

text \<open>
  Claim C4: when the recognised entity is a \<open>Gene\<close>, \<open>interpret\<close> sets the intent
  \<open>gene_power\<close> and returns the chain \<open>[CONFERS]\<close>, whatever the question says; for a
  \<open>Power\<close> the intent is \<open>power_character\<close> and the chain \<open>[POSSESSES_POWER]\<close>; for a
  \<open>Team\<close> the intent is \<open>team_character\<close> and the chain \<open>[MEMBER_OF]\<close>. The similarity
  \<open>sim\<close> is arbitrary here: the embedding model has no part in the result.
\<close>

theorem interpret_forced_dispatch:
  "(extract_entity nlp lower G q = Some e \<and> node_type G e = Inr (PStr (py ''Gene'')) \<longrightarrow>
      interpret_trace nlp lower sim G q =
        Inr (py ''gene_power'',
             \<lparr>start_entity = Some e, start_type = Some (PStr (py ''Gene'')),
              relation_chain = Some [py ''CONFERS''], target_type = Some (py ''Power'')\<rparr>) \<and>
      interpret_query nlp lower sim G q =
        Inr \<lparr>start_entity = Some e, start_type = Some (PStr (py ''Gene'')),
             relation_chain = Some [py ''CONFERS''], target_type = Some (py ''Power'')\<rparr>) \<and>
   (extract_entity nlp lower G q = Some e \<and> node_type G e = Inr (PStr (py ''Power'')) \<longrightarrow>
      interpret_trace nlp lower sim G q =
        Inr (py ''power_character'',
             \<lparr>start_entity = Some e, start_type = Some (PStr (py ''Power'')),
              relation_chain = Some [py ''POSSESSES_POWER''], target_type = Some (py ''Character'')\<rparr>) \<and>
      interpret_query nlp lower sim G q =
        Inr \<lparr>start_entity = Some e, start_type = Some (PStr (py ''Power'')),
             relation_chain = Some [py ''POSSESSES_POWER''], target_type = Some (py ''Character'')\<rparr>) \<and>
   (extract_entity nlp lower G q = Some e \<and> node_type G e = Inr (PStr (py ''Team'')) \<longrightarrow>
      interpret_trace nlp lower sim G q =
        Inr (py ''team_character'',
             \<lparr>start_entity = Some e, start_type = Some (PStr (py ''Team'')),
              relation_chain = Some [py ''MEMBER_OF''], target_type = Some (py ''Character'')\<rparr>) \<and>
      interpret_query nlp lower sim G q =
        Inr \<lparr>start_entity = Some e, start_type = Some (PStr (py ''Team'')),
             relation_chain = Some [py ''MEMBER_OF''], target_type = Some (py ''Character'')\<rparr>)"
  by (simp add: interpret_query_def interpret_trace_def choose_intent_def target_of_values)

theorem interpret_forced_dispatch_witness:
  "interpret_query None ascii_lower flat_sim marvel (py ''Which mutant team has the regenerative mutation?'')
     = Inr \<lparr>start_entity = Some (py ''Regenerative Mutation''), start_type = Some (PStr (py ''Gene'')),
            relation_chain = Some [py ''CONFERS''], target_type = Some (py ''Power'')\<rparr> \<and>
   interpret_query None ascii_lower flat_sim marvel (py ''Tell me about accelerated healing'')
     = Inr \<lparr>start_entity = Some (py ''Accelerated Healing''), start_type = Some (PStr (py ''Power'')),
            relation_chain = Some [py ''POSSESSES_POWER''], target_type = Some (py ''Character'')\<rparr> \<and>
   interpret_query None ascii_lower flat_sim marvel (py ''Who is in the X-Men?'')
     = Inr \<lparr>start_entity = Some x_men, start_type = Some (PStr (py ''Team'')),
            relation_chain = Some [py ''MEMBER_OF''], target_type = Some (py ''Character'')\<rparr>"
proof -
  note T = interpret_forced_dispatch [where nlp = None and lower = ascii_lower and sim = flat_sim and G = marvel]
  have g: "extract_entity None ascii_lower marvel (py ''Which mutant team has the regenerative mutation?'')
             = Some (py ''Regenerative Mutation'')"
    by (simp add: extract_entity_def extract_fallback_def marvel_names node_matches_def)
       (simp add: py_def ascii_lower_def spider_man_def x_men_def replace_cp_def nb_hyphen_def hyphen_def)
  have p: "extract_entity None ascii_lower marvel (py ''Tell me about accelerated healing'')
             = Some (py ''Accelerated Healing'')"
    by (simp add: extract_entity_def extract_fallback_def marvel_names node_matches_def)
       (simp add: py_def ascii_lower_def spider_man_def x_men_def replace_cp_def nb_hyphen_def hyphen_def)
  have t: "extract_entity None ascii_lower marvel (py ''Who is in the X-Men?'') = Some x_men"
    by (simp add: extract_entity_def extract_fallback_def marvel_names node_matches_def)
       (simp add: py_def ascii_lower_def spider_man_def x_men_def replace_cp_def nb_hyphen_def hyphen_def)
  from T [where q = "py ''Which mutant team has the regenerative mutation?''" and e = "py ''Regenerative Mutation''"]
       T [where q = "py ''Tell me about accelerated healing''" and e = "py ''Accelerated Healing''"]
       T [where q = "py ''Who is in the X-Men?''" and e = x_men]
       g p t marvel_types
  show ?thesis by blast
qed

text \<open>
  Claim C9: when the recognised entity is a \<open>Character\<close> and the lowered question
  contains \<open>gene\<close>, \<open>mutation\<close> or \<open>mutant\<close>, \<open>interpret\<close> sets the intent
  \<open>character_gene\<close> and returns the chain \<open>[HAS_MUTATION]\<close>, for every similarity \<open>sim\<close>.
\<close>

theorem interpret_character_gene_tokens:
  "extract_entity nlp lower G q = Some e \<and> node_type G e = Inr (PStr (py ''Character'')) \<and>
   (str_in (py ''gene'') (lower q) \<or> str_in (py ''mutation'') (lower q) \<or> str_in (py ''mutant'') (lower q)) \<longrightarrow>
      interpret_trace nlp lower sim G q =
        Inr (py ''character_gene'',
             \<lparr>start_entity = Some e, start_type = Some (PStr (py ''Character'')),
              relation_chain = Some [py ''HAS_MUTATION''], target_type = Some (py ''Gene'')\<rparr>) \<and>
      interpret_query nlp lower sim G q =
        Inr \<lparr>start_entity = Some e, start_type = Some (PStr (py ''Character'')),
             relation_chain = Some [py ''HAS_MUTATION''], target_type = Some (py ''Gene'')\<rparr>"
  by (auto simp: interpret_query_def interpret_trace_def choose_intent_def target_of_values)

theorem interpret_character_gene_tokens_witness:
  "interpret_query None ascii_lower flat_sim marvel (py ''Is Wolverine a MUTANT?'')
     = Inr \<lparr>start_entity = Some (py ''Wolverine''), start_type = Some (PStr (py ''Character'')),
            relation_chain = Some [py ''HAS_MUTATION''], target_type = Some (py ''Gene'')\<rparr>"
proof -
  let ?q = "py ''Is Wolverine a MUTANT?''"
  have e: "extract_entity None ascii_lower marvel ?q = Some (py ''Wolverine'')"
    by (simp add: extract_entity_def extract_fallback_def marvel_names node_matches_def)
       (simp add: py_def ascii_lower_def spider_man_def x_men_def replace_cp_def nb_hyphen_def hyphen_def)
  have w: "str_in (py ''mutant'') (ascii_lower ?q)"
    by (simp add: py_def ascii_lower_def)
  from interpret_character_gene_tokens
         [where nlp = None and lower = ascii_lower and sim = flat_sim and G = marvel and q = ?q
            and e = "py ''Wolverine''"]
       e w marvel_types
  show ?thesis by blast
qed

end
